theory Spec2Isabelle
  imports Complex_Main "HOL-Library.List_Lexorder" "HOL-Library.Char_ord"
begin

chapter \<open>Milk-Track: the receipt ingestion pipeline and the records view\<close>

text \<open>
  The development embeds the TypeScript of the repository: the \<open>App\<close> component with
  authentication, entry modes and persistence (the later \<open>App.tsx\<close>), the earlier
  camera-only \<open>App.tsx\<close>, \<open>services/receiptService.ts\<close>, \<open>components/Records.tsx\<close>
  and the row-level-security policies of \<open>SUPABASE_SCHEMA.sql\<close> and
  \<open>SUPABASE_STORAGE_POLICIES.sql\<close>.

  Conventions of the embedding.
  \<^item> A JavaScript object with optional string properties (\<open>ParsedData\<close>, the object
    returned by \<open>JSON.parse\<close>, the form data of react-hook-form) is a map from property
    names to strings; an absent key is \<open>undefined\<close>. Object spread \<open>{...a, ...b}\<close> is
    \<open>a ++ b\<close>.
  \<^item> A JavaScript number is \<open>NaN\<close>, an infinity or a finite binary64 double, given by
    its value; conversions and arithmetic round to the nearest double.
  \<^item> A string is a list of bytes; case folding is ASCII.
  \<^item> \<open>async\<close> functions run to completion; what they await is answered by an explicit
    environment, and a rejected promise or a thrown error is the \<open>Inl\<close> of a sum.
\<close>

section \<open>JavaScript strings and numbers\<close>

definition is_digit :: "char \<Rightarrow> bool" where
  "is_digit c = (c \<in> set ''0123456789'')"

definition digit_val :: "char \<Rightarrow> nat" where
  "digit_val c =
     (case map_of (zip ''0123456789'' [0, 1, 2, 3, 4, 5, 6, 7, 8, 9]) c of
        Some d \<Rightarrow> d | None \<Rightarrow> 0)"

text \<open>The value of a run of decimal digits, most significant first.\<close>

definition nat_of_digits :: "string \<Rightarrow> nat" where
  "nat_of_digits ds = foldl (\<lambda>n c. 10 * n + digit_val c) 0 ds"

text \<open>\<open>String(n)\<close> for a natural number \<open>n\<close>: its decimal digits, no leading zero.\<close>

fun digits_of :: "nat \<Rightarrow> string" where
  "digits_of n =
     (if n < 10 then [''0123456789'' ! n]
      else digits_of (n div 10) @ [''0123456789'' ! (n mod 10)])"

declare digits_of.simps [simp del]

text \<open>\<open>String(k)\<close> for an integer.\<close>

definition string_of_int :: "int \<Rightarrow> string" where
  "string_of_int k = (if k < 0 then CHR ''-'' # digits_of (nat (- k)) else digits_of (nat k))"

text \<open>\<open>s.padStart(n, c)\<close> with a one-character filler.\<close>

definition padStart :: "nat \<Rightarrow> char \<Rightarrow> string \<Rightarrow> string" where
  "padStart n c s = replicate (n - length s) c @ s"

definition lower_char :: "char \<Rightarrow> char" where
  "lower_char c =
     (case map_of (zip ''ABCDEFGHIJKLMNOPQRSTUVWXYZ'' ''abcdefghijklmnopqrstuvwxyz'') c of
        Some d \<Rightarrow> d | None \<Rightarrow> c)"

definition toLowerCase :: "string \<Rightarrow> string" where
  "toLowerCase s = map lower_char s"

primrec starts_with :: "string \<Rightarrow> string \<Rightarrow> bool" where
  "starts_with [] s = True"
| "starts_with (p # ps) s = (case s of [] \<Rightarrow> False | c # cs \<Rightarrow> p = c \<and> starts_with ps cs)"

text \<open>\<open>s.includes(pat)\<close>: \<open>pat\<close> occurs in \<open>s\<close> as a contiguous substring.\<close>

primrec includes_str :: "string \<Rightarrow> string \<Rightarrow> bool" where
  "includes_str [] pat = (pat = [])"
| "includes_str (c # cs) pat = (starts_with pat (c # cs) \<or> includes_str cs pat)"

text \<open>\<open>a || b\<close> for an optional string \<open>a\<close>: \<open>undefined\<close> and the empty string are falsy.\<close>

definition or_else :: "string option \<Rightarrow> string \<Rightarrow> string" where
  "or_else a b = (case a of None \<Rightarrow> b | Some s \<Rightarrow> if s = [] then b else s)"

text \<open>The truthiness of an optional string.\<close>

definition truthy :: "string option \<Rightarrow> bool" where
  "truthy a = (case a of None \<Rightarrow> False | Some s \<Rightarrow> s \<noteq> [])"


text \<open>
  A JavaScript number: \<open>NaN\<close>, an infinity, or a finite number, given by its value. The
  finite numbers are the binary64 doubles, and every conversion and arithmetic operation
  yields the double nearest to the exact result (ties to the even significand), or an
  infinity beyond the range. Negative zero is not told apart from zero.
\<close>

datatype jsnum = NaN | PosInf | NegInf | Fin real

definition inf_sign :: "bool \<Rightarrow> jsnum" where
  "inf_sign positive = (if positive then PosInf else NegInf)"

text \<open>The number of binary digits of a natural number.\<close>

fun bitlen :: "nat \<Rightarrow> nat" where
  "bitlen n = (if n = 0 then 0 else Suc (bitlen (n div 2)))"

declare bitlen.simps [simp del]

text \<open>For a positive \<open>a\<close>, the exponent \<open>e\<close> with \<open>2^e \<le> a < 2^(e+1)\<close>.\<close>

definition ilog2 :: "real \<Rightarrow> int" where
  "ilog2 a =
     (if 1 \<le> a then int (bitlen (nat \<lfloor>a\<rfloor>)) - 1
      else - int (bitlen (nat (\<lceil>1 / a\<rceil> - 1))))"

definition pow2 :: "int \<Rightarrow> real" where
  "pow2 e = (if 0 \<le> e then 2 ^ nat e else 1 / 2 ^ nat (- e))"

text \<open>The nearest integer, the even one at a tie.\<close>

definition round_half_even :: "real \<Rightarrow> int" where
  "round_half_even y =
     (let q = \<lfloor>y\<rfloor>; r = y - of_int q
      in if r < 1 / 2 then q else if 1 / 2 < r then q + 1 else if even q then q else q + 1)"

text \<open>
  Rounding to binary64, the exponent unbounded above: a significand of 53 bits for a
  normal number, the spacing \<open>2^-1074\<close> below \<open>2^-1022\<close>.
\<close>

definition round_double :: "real \<Rightarrow> real" where
  "round_double x =
     (if x = 0 then 0
      else (let a = \<bar>x\<bar>;
                e = max (ilog2 a) (- 1022);
                u = pow2 (e - 52);
                v = of_int (round_half_even (a / u)) * u
            in if x < 0 then - v else v))"

text \<open>The Number value for a real: what rounds to \<open>2^1024\<close> or beyond is an infinity.\<close>

definition to_double :: "real \<Rightarrow> jsnum" where
  "to_double x =
     (let v = round_double x
      in if 2 ^ 1024 \<le> \<bar>v\<bar> then inf_sign (0 < x) else Fin v)"

fun jsnum_add :: "jsnum \<Rightarrow> jsnum \<Rightarrow> jsnum" where
  "jsnum_add (Fin a) (Fin b) = to_double (a + b)"
| "jsnum_add NaN y = NaN"
| "jsnum_add x NaN = NaN"
| "jsnum_add PosInf NegInf = NaN"
| "jsnum_add NegInf PosInf = NaN"
| "jsnum_add PosInf y = PosInf"
| "jsnum_add NegInf y = NegInf"
| "jsnum_add x PosInf = PosInf"
| "jsnum_add x NegInf = NegInf"

fun jsnum_mul :: "jsnum \<Rightarrow> jsnum \<Rightarrow> jsnum" where
  "jsnum_mul (Fin a) (Fin b) = to_double (a * b)"
| "jsnum_mul NaN y = NaN"
| "jsnum_mul x NaN = NaN"
| "jsnum_mul (Fin a) PosInf = (if a = 0 then NaN else inf_sign (0 < a))"
| "jsnum_mul (Fin a) NegInf = (if a = 0 then NaN else inf_sign (a < 0))"
| "jsnum_mul PosInf (Fin b) = (if b = 0 then NaN else inf_sign (0 < b))"
| "jsnum_mul NegInf (Fin b) = (if b = 0 then NaN else inf_sign (b < 0))"
| "jsnum_mul PosInf PosInf = PosInf"
| "jsnum_mul NegInf NegInf = PosInf"
| "jsnum_mul PosInf NegInf = NegInf"
| "jsnum_mul NegInf PosInf = NegInf"

definition is_space :: "char \<Rightarrow> bool" where
  "is_space c = (c \<in> set [CHR '' '', CHR 0x09, CHR 0x0A, CHR 0x0B, CHR 0x0C, CHR 0x0D])"

text \<open>
  The exponent part of a decimal literal: \<open>e\<close> or \<open>E\<close>, an optional sign and at least one
  digit; anything else is no exponent and is left unread. The result is the exponent and
  the unread rest.
\<close>

definition exponent_of :: "string \<Rightarrow> int \<times> string" where
  "exponent_of r =
     (case r of
        [] \<Rightarrow> (0, r)
      | c # cs \<Rightarrow>
          if c = CHR ''e'' \<or> c = CHR ''E'' then
            (let neg = (cs \<noteq> [] \<and> hd cs = CHR ''-'');
                 ds0 = (if cs \<noteq> [] \<and> (hd cs = CHR ''-'' \<or> hd cs = CHR ''+'') then tl cs else cs);
                 ds = takeWhile is_digit ds0
             in if ds = [] then (0, r)
                else (if neg then - int (nat_of_digits ds) else int (nat_of_digits ds),
                      dropWhile is_digit ds0))
          else (0, r))"

definition scale10 :: "real \<Rightarrow> int \<Rightarrow> real" where
  "scale10 m e = (if 0 \<le> e then m * 10 ^ nat e else m / 10 ^ nat (- e))"

text \<open>
  The longest prefix of \<open>t\<close> that is a signed decimal literal (sign, digits, fraction,
  exponent, or \<open>Infinity\<close>), as the nearest double, and the unread rest; \<open>NaN\<close> when there is no
  such prefix.
\<close>

definition scan_decimal :: "string \<Rightarrow> jsnum \<times> string" where
  "scan_decimal t =
     (let neg = (t \<noteq> [] \<and> hd t = CHR ''-'');
          u = (if t \<noteq> [] \<and> (hd t = CHR ''-'' \<or> hd t = CHR ''+'') then tl t else t)
      in if starts_with ''Infinity'' u then (inf_sign (\<not> neg), drop 8 u)
         else
           (let ip = takeWhile is_digit u;
                r = dropWhile is_digit u;
                dot = (r \<noteq> [] \<and> hd r = CHR ''.'');
                fp = (if dot then takeWhile is_digit (tl r) else []);
                r2 = (if dot then dropWhile is_digit (tl r) else r)
            in if ip = [] \<and> fp = [] then (NaN, t)
               else
                 (let m = real (nat_of_digits (ip @ fp)) / 10 ^ length fp;
                      ex = exponent_of r2;
                      v = scale10 m (fst ex)
                  in (to_double (if neg then - v else v), snd ex))))"

text \<open>
  \<open>parseFloat\<close>: leading white space is skipped, then the longest prefix that is a decimal
  literal is read; what follows it is ignored.
\<close>

definition parseFloat :: "string \<Rightarrow> jsnum" where
  "parseFloat s = fst (scan_decimal (dropWhile is_space s))"

text \<open>
  A literal in radix 16, 8 or 2: \<open>0x\<close>, \<open>0o\<close> or \<open>0b\<close> (in either case) and at least one
  digit of the radix, without a sign.
\<close>

definition radix_digit :: "nat \<Rightarrow> char \<Rightarrow> nat option" where
  "radix_digit base c =
     (case map_of (zip ''0123456789abcdefABCDEF''
                     [0, 1, 2, 3, 4, 5, 6, 7, 8, 9, 10, 11, 12, 13, 14, 15, 10, 11, 12, 13, 14, 15]) c of
        None \<Rightarrow> None
      | Some d \<Rightarrow> if d < base then Some d else None)"

definition radix_literal :: "string \<Rightarrow> jsnum option" where
  "radix_literal t =
     (case t of
        c0 # c1 # ds \<Rightarrow>
          (let base = (if c1 = CHR ''x'' \<or> c1 = CHR ''X'' then 16
                       else if c1 = CHR ''o'' \<or> c1 = CHR ''O'' then 8
                       else if c1 = CHR ''b'' \<or> c1 = CHR ''B'' then 2 else 0)
           in if c0 = CHR ''0'' \<and> base \<noteq> 0 \<and> ds \<noteq> []
                 \<and> list_all (\<lambda>c. radix_digit base c \<noteq> None) ds
              then Some (to_double
                           (real (foldl (\<lambda>n c. base * n + the (radix_digit base c)) 0 ds)))
              else None)
      | _ \<Rightarrow> None)"

text \<open>
  \<open>Number(s)\<close> (the unary \<open>+s\<close>): the whole string, white space at both ends apart, must
  be a literal; the empty string is \<open>0\<close>.
\<close>

definition toNumber :: "string \<Rightarrow> jsnum" where
  "toNumber s =
     (let t = rev (dropWhile is_space (rev (dropWhile is_space s)))
      in if t = [] then Fin 0
         else (case radix_literal t of
                 Some n \<Rightarrow> n
               | None \<Rightarrow>
                   (let sc = scan_decimal t in if snd sc = [] then fst sc else NaN)))"

text \<open>
  \<open>Number::toString\<close> for a finite \<open>x\<close> from \<open>10^21\<close> on. The candidates with \<open>k\<close> digits
  are the pairs \<open>(s, n)\<close> with \<open>10^(k-1) \<le> s < 10^k\<close> whose decimal \<open>s * 10^(n-k)\<close>
  converts back to \<open>x\<close>; the smallest \<open>k\<close> that has one is taken, and of its candidates the
  one nearest to \<open>x\<close>; the result is in exponent notation.
\<close>

definition shortest_candidates :: "real \<Rightarrow> nat \<Rightarrow> (nat \<times> nat) list" where
  "shortest_candidates x k =
     (let n0 = length (digits_of (nat \<lfloor>x\<rfloor>))
      in filter (\<lambda>(s, n). 10 ^ (k - 1) \<le> s \<and> s < 10 ^ k
                           \<and> to_double (real s * 10 ^ (n - k)) = Fin x)
           (concat (map (\<lambda>n. [(nat \<lfloor>x / 10 ^ (n - k)\<rfloor>, n), (nat \<lfloor>x / 10 ^ (n - k)\<rfloor> + 1, n)])
                      [n0, n0 + 1])))"

definition nearer :: "real \<Rightarrow> nat \<Rightarrow> nat \<times> nat \<Rightarrow> nat \<times> nat \<Rightarrow> nat \<times> nat" where
  "nearer x k c d =
     (let dc = \<bar>real (fst c) * 10 ^ (snd c - k) - x\<bar>;
          dd = \<bar>real (fst d) * 10 ^ (snd d - k) - x\<bar>
      in if dd < dc \<or> (dd = dc \<and> even (fst d)) then d else c)"

definition exponent_notation :: "nat \<times> nat \<Rightarrow> string" where
  "exponent_notation c =
     (let ds = digits_of (fst c)
      in (if length ds = 1 then ds else hd ds # ''.'' @ tl ds) @ ''e+'' @ digits_of (snd c - 1))"

definition toString_large :: "real \<Rightarrow> string" where
  "toString_large x =
     (case List.find (\<lambda>k. shortest_candidates x k \<noteq> []) [1..<18] of
        Some k \<Rightarrow>
          (let cs = shortest_candidates x k in exponent_notation (foldl (nearer x k) (hd cs) (tl cs)))
      | None \<Rightarrow>
          (let n0 = length (digits_of (nat \<lfloor>x\<rfloor>))
           in exponent_notation (nat \<lfloor>x / 10 ^ (n0 - 17) + 1 / 2\<rfloor>, n0)))"

text \<open>
  \<open>x.toFixed(f)\<close>: the sign, then, below \<open>10^21\<close>, the integer \<open>n\<close> nearest to
  \<open>|x| * 10^f\<close> (the larger one at a tie), written with at least \<open>f + 1\<close> digits and a
  point before the last \<open>f\<close>; from \<open>10^21\<close> on, \<open>String(|x|)\<close>.
\<close>

definition toFixed :: "nat \<Rightarrow> jsnum \<Rightarrow> string" where
  "toFixed f x =
     (case x of
        NaN \<Rightarrow> ''NaN''
      | PosInf \<Rightarrow> ''Infinity''
      | NegInf \<Rightarrow> ''-Infinity''
      | Fin q \<Rightarrow>
          (if q < 0 then ''-'' else [])
          @ (if 10 ^ 21 \<le> \<bar>q\<bar> then toString_large \<bar>q\<bar>
             else (let n = nat \<lfloor>\<bar>q\<bar> * 10 ^ f + 1 / 2\<rfloor>;
                       m = padStart (f + 1) (CHR ''0'') (digits_of n);
                       k = length m - f
                   in if f = 0 then m else take k m @ ''.'' @ drop k m)))"

section \<open>The session state of the App component\<close>

text \<open>
  \<open>interface ParsedData { rawText: string; date?, quantity?, fat?, clr?, fatKg?, snfKg?,
  baseRate?, rate?, amount?: string }\<close>: a map from these property names to strings.
\<close>

type_synonym ParsedData = "string \<rightharpoonup> string"

datatype View = Upload | RecordsView

datatype EntryMode = Camera | Manual

text \<open>
  A blob produced by \<open>canvas.toBlob\<close>: the dimensions of the canvas, the MIME type and the
  quality that were asked for. The pixels are not modelled.
\<close>

record Blob =
  blob_width :: nat
  blob_height :: nat
  blob_type :: string
  blob_quality :: real

text \<open>
  The \<open>useState\<close> cells of \<open>App\<close>, and the log of \<open>alert\<close> calls (latest last).
\<close>

record AppState =
  currentView :: View
  entryMode :: EntryMode
  selectedImage :: "string option"
  compressedBlob :: "Blob option"
  parsedData :: "ParsedData option"
  isProcessing :: bool
  isEditing :: bool
  isSaving :: bool
  alerts :: "string list"

section \<open>Image capture: the file date, compression and extraction\<close>

text \<open>
  A \<open>File\<close> chosen in the file input: its name, its \<open>lastModified\<close> time (milliseconds
  since the epoch), its MIME type, and the picture it decodes to (its width and height in
  pixels; \<open>None\<close> when the browser cannot decode it and \<open>img.onerror\<close> fires).
\<close>

record JSFile =
  file_name :: string
  lastModified :: int
  file_type :: string
  picture :: "(nat \<times> nat) option"

text \<open>
  What the browser and the network answer: the configured Gemini key
  (\<open>import.meta.env.VITE_GEMINI_API_KEY\<close>), the text of the model's response to the
  compressed image (\<open>None\<close> when the request throws), \<open>JSON.parse\<close> (\<open>None\<close> when it throws a
  \<open>SyntaxError\<close>; the object's properties are strings, as the prompt asks),
  \<open>URL.createObjectURL\<close>, and the offset of local time from UTC in milliseconds at a given
  time.
\<close>

record Env =
  apiKey :: "string option"
  generateContent :: "string \<Rightarrow> Blob \<Rightarrow> string option"
  JSON_parse :: "string \<Rightarrow> ParsedData option"
  createObjectURL :: "Blob \<Rightarrow> string"
  localTZA :: "int \<Rightarrow> int"

subsection \<open>The JavaScript Date of a time value\<close>

definition msPerDay :: int where
  "msPerDay = 86400000"

text \<open>
  The civil date (year, month 1 to 12, day of month) of a day number counted from
  1970-01-01, in the proleptic Gregorian calendar that \<open>Date\<close> uses. Days are counted in
  eras of 400 years that start on 1 March, so that a leap day is the last day of its
  year: an era is four centuries (the last one a day longer), a century is 25 cycles of
  four years, and a cycle is four years (the last one a day longer).
\<close>

definition day_of_year :: "int \<Rightarrow> int" where
  "day_of_year doe =
     (let century = min 3 (doe div 36524);
          doc = doe - century * 36524;
          doq = doc mod 1461;
          yoq = min 3 (doq div 365)
      in doq - yoq * 365)"

definition year_of_era :: "int \<Rightarrow> int" where
  "year_of_era doe =
     (let century = min 3 (doe div 36524);
          doc = doe - century * 36524;
          cycle = doc div 1461;
          doq = doc mod 1461;
          yoq = min 3 (doq div 365)
      in 100 * century + 4 * cycle + yoq)"

text \<open>The month (1 to 12) and the day of the month of a day of a year that starts on 1 March.\<close>

definition month_of :: "int \<Rightarrow> int" where
  "month_of doy = (let mp = (5 * doy + 2) div 153 in if mp < 10 then mp + 3 else mp - 9)"

definition day_of_month :: "int \<Rightarrow> int" where
  "day_of_month doy = (let mp = (5 * doy + 2) div 153 in doy - (153 * mp + 2) div 5 + 1)"

definition civil_from_days :: "int \<Rightarrow> int \<times> int \<times> int" where
  "civil_from_days z0 =
     (let z = z0 + 719468;
          era = z div 146097;
          doe = z mod 146097;
          doy = day_of_year doe;
          m = month_of doy;
          y = year_of_era doe + era * 400 + (if m \<le> 2 then 1 else 0)
      in (y, m, day_of_month doy))"

text \<open>
  \<open>new Date(t)\<close> is an invalid date when \<open>t\<close> is outside the time range of \<open>Date\<close>; its
  getters then return \<open>NaN\<close> (\<open>None\<close> here). The getters read local time.
\<close>

definition valid_time :: "int \<Rightarrow> bool" where
  "valid_time t = (\<bar>t\<bar> \<le> 8640000000000000)"

definition local_civil :: "Env \<Rightarrow> int \<Rightarrow> int \<times> int \<times> int" where
  "local_civil env t = civil_from_days ((t + localTZA env t) div msPerDay)"

definition getDate :: "Env \<Rightarrow> int \<Rightarrow> int option" where
  "getDate env t = (if valid_time t then Some (snd (snd (local_civil env t))) else None)"

definition getMonth :: "Env \<Rightarrow> int \<Rightarrow> int option" where
  "getMonth env t = (if valid_time t then Some (fst (snd (local_civil env t)) - 1) else None)"

definition getFullYear :: "Env \<Rightarrow> int \<Rightarrow> int option" where
  "getFullYear env t = (if valid_time t then Some (fst (local_civil env t)) else None)"

text \<open>\<open>String(x)\<close> for the integer or \<open>NaN\<close> that a getter returns.\<close>

definition String_of :: "int option \<Rightarrow> string" where
  "String_of x = (case x of None \<Rightarrow> ''NaN'' | Some k \<Rightarrow> string_of_int k)"

text \<open>
  \<open>getImageCaptureDate\<close>: the file's last-modified date, day and month padded to two
  characters, as \<open>day/month/year\<close>.
\<close>

definition getImageCaptureDate :: "Env \<Rightarrow> JSFile \<Rightarrow> string" where
  "getImageCaptureDate env file =
     (let fileDate = lastModified file;
          day = padStart 2 (CHR ''0'') (String_of (getDate env fileDate));
          month = padStart 2 (CHR ''0'')
                    (String_of (map_option (\<lambda>m. m + 1) (getMonth env fileDate)));
          year = String_of (getFullYear env fileDate)
      in day @ ''/'' @ month @ ''/'' @ year)"

subsection \<open>compressImage\<close>

datatype failure =
    ImageLoadError
  | CompressionFailed
  | GeminiError
  | NoJsonInResponse
  | JsonSyntaxError

definition maxSize :: nat where
  "maxSize = 1600"

text \<open>
  The new dimensions: at most \<open>maxSize\<close> on each side, in the proportion of the picture.
\<close>

definition scaled_dimensions :: "nat \<Rightarrow> nat \<Rightarrow> real \<times> real" where
  "scaled_dimensions w h =
     (if w > h \<and> w > maxSize then (real maxSize, real (h * maxSize) / real w)
      else if h > maxSize then (real (w * maxSize) / real h, real maxSize)
      else (real w, real h))"

text \<open>
  Assigning a number to \<open>canvas.width\<close> or \<open>canvas.height\<close> (an \<open>unsigned long\<close>) drops its
  fraction.
\<close>

definition canvas_dimension :: "real \<Rightarrow> nat" where
  "canvas_dimension x = nat \<lfloor>x\<rfloor>"

text \<open>
  \<open>canvas.toBlob(callback, type, quality)\<close>: the callback receives \<open>null\<close> when the canvas
  has no pixels.
\<close>

definition toBlob :: "nat \<Rightarrow> nat \<Rightarrow> string \<Rightarrow> real \<Rightarrow> Blob option" where
  "toBlob w h ty q =
     (if w = 0 \<or> h = 0 then None
      else Some \<lparr>blob_width = w, blob_height = h, blob_type = ty, blob_quality = q\<rparr>)"

definition compressImage :: "JSFile \<Rightarrow> failure + Blob" where
  "compressImage file =
     (case picture file of
        None \<Rightarrow> Inl ImageLoadError
      | Some (img_width, img_height) \<Rightarrow>
          (let dims = scaled_dimensions img_width img_height;
               canvas_width = canvas_dimension (fst dims);
               canvas_height = canvas_dimension (snd dims)
           in case toBlob canvas_width canvas_height ''image/jpeg'' (85 / 100) of
                None \<Rightarrow> Inl CompressionFailed
              | Some blob \<Rightarrow> Inr blob))"

subsection \<open>handleImageUpload\<close>

text \<open>
  \<open>responseText.match(/\{[\s\S]*\}/)\<close>: the span from the first opening brace to the last
  closing brace after it.
\<close>

definition jsonMatch :: "string \<Rightarrow> string option" where
  "jsonMatch s =
     (let t = dropWhile (\<lambda>c. c \<noteq> CHR ''{'') s
      in if t = [] then None
         else (let body = rev (dropWhile (\<lambda>c. c \<noteq> CHR ''}'') (rev (tl t)))
               in if body = [] then None else Some (CHR ''{'' # body)))"

definition apiKeyAlert :: string where
  "apiKeyAlert =
     ''Please add your Gemini API key to .env.local file:'' @ [CHR 0x0A]
     @ ''VITE_GEMINI_API_KEY=your_api_key_here'' @ [CHR 0x0A, CHR 0x0A]
     @ ''Get your free API key from: https://makersuite.google.com/app/apikey''
     @ [CHR 0x0A, CHR 0x0A] @ ''Then restart the dev server.''"

definition processAlert :: string where
  "processAlert = ''Failed to process image. Please check your API key and try again.''"

text \<open>
  The body of the \<open>try\<close> block: the state as far as it got, and the error that was thrown
  if one was.
\<close>

definition processImage :: "Env \<Rightarrow> string \<Rightarrow> AppState \<Rightarrow> JSFile \<Rightarrow> AppState \<times> failure option" where
  "processImage env key st file =
     (case compressImage file of
        Inl e \<Rightarrow> (st, Some e)
      | Inr compressed \<Rightarrow>
          (let st1 = st\<lparr>compressedBlob := Some compressed,
                          selectedImage := Some (createObjectURL env compressed)\<rparr>
           in case generateContent env key compressed of
                None \<Rightarrow> (st1, Some GeminiError)
              | Some responseText \<Rightarrow>
                  (case jsonMatch responseText of
                     None \<Rightarrow> (st1, Some NoJsonInResponse)
                   | Some matched \<Rightarrow>
                       (case JSON_parse env matched of
                          None \<Rightarrow> (st1, Some JsonSyntaxError)
                        | Some extractedData \<Rightarrow>
                            (let captureDate = getImageCaptureDate env file
                             in (st1\<lparr>parsedData :=
                                       Some ([''rawText'' \<mapsto> responseText,
                                              ''date'' \<mapsto> or_else (extractedData ''date'') captureDate]
                                             ++ extractedData)\<rparr>,
                                 None))))))"

definition handleImageUpload :: "Env \<Rightarrow> AppState \<Rightarrow> JSFile option \<Rightarrow> AppState" where
  "handleImageUpload env st fileOpt =
     (case fileOpt of
        None \<Rightarrow> st
      | Some file \<Rightarrow>
          if \<not> truthy (apiKey env) then st\<lparr>alerts := alerts st @ [apiKeyAlert]\<rparr>
          else
            (let res = processImage env (the (apiKey env))
                         (st\<lparr>isProcessing := True, parsedData := None\<rparr>) file;
                 st1 = (case snd res of
                          None \<Rightarrow> fst res
                        | Some e \<Rightarrow> (fst res)\<lparr>alerts := alerts (fst res) @ [processAlert]\<rparr>)
             in st1\<lparr>isProcessing := False\<rparr>))"

subsection \<open>The manual entry form\<close>

text \<open>\<open>s.split(c)\<close> for a one-character separator.\<close>

primrec split_on :: "char \<Rightarrow> string \<Rightarrow> string list" where
  "split_on c [] = [[]]"
| "split_on c (x # xs) =
     (if x = c then [] # split_on c xs
      else (case split_on c xs of [] \<Rightarrow> [[x]] | p # ps \<Rightarrow> (x # p) # ps))"

text \<open>An element taken by array destructuring, inside a template literal.\<close>

definition template_elem :: "string list \<Rightarrow> nat \<Rightarrow> string" where
  "template_elem parts i = (if i < length parts then parts ! i else ''undefined'')"

text \<open>A property set to an optional string: \<open>undefined\<close> leaves the key absent.\<close>

definition set_prop :: "ParsedData \<Rightarrow> string \<Rightarrow> string option \<Rightarrow> ParsedData" where
  "set_prop m k v = (case v of None \<Rightarrow> m | Some s \<Rightarrow> m(k \<mapsto> s))"

text \<open>
  The submit handler of the manual entry form: CLR is computed from SNF and fat, the date
  is turned from \<open>YYYY-MM-DD\<close> into \<open>DD/MM/YYYY\<close>.
\<close>

definition manualClr :: "ParsedData \<Rightarrow> string" where
  "manualClr data =
     (let snfValue = or_else (data ''snfKg'') ''0'';
          fatValue = or_else (data ''fat'') ''0''
      in toFixed 2 (jsnum_add (parseFloat snfValue)
                      (jsnum_mul (to_double (25 / 100)) (parseFloat fatValue))))"

definition manualDate :: "ParsedData \<Rightarrow> string option" where
  "manualDate data =
     (case data ''date'' of
        None \<Rightarrow> None
      | Some d \<Rightarrow>
          if d \<noteq> [] \<and> CHR ''-'' \<in> set d then
            (let parts = split_on (CHR ''-'') d
             in Some (template_elem parts 2 @ ''/'' @ template_elem parts 1 @ ''/''
                      @ template_elem parts 0))
          else Some d)"

definition manualSubmit :: "AppState \<Rightarrow> ParsedData \<Rightarrow> AppState" where
  "manualSubmit st data =
     st\<lparr>parsedData :=
          Some (set_prop (set_prop ((set_prop (set_prop (set_prop (set_prop
                  [''rawText'' \<mapsto> ''Manual entry'']
                  ''date'' (manualDate data))
                  ''quantity'' (data ''quantity''))
                  ''fat'' (data ''fat''))
                  ''snfKg'' (data ''snfKg''))
                  (''clr'' \<mapsto> manualClr data))
                  ''rate'' (data ''rate''))
                  ''amount'' (data ''amount''))\<rparr>"

text \<open>
  \<open>onSubmit\<close> of the review form: \<open>setParsedData({ ...parsedData!, ...data });
  setIsEditing(false)\<close>. Spreading \<open>null\<close> adds no property.
\<close>

definition onSubmit :: "AppState \<Rightarrow> ParsedData \<Rightarrow> AppState" where
  "onSubmit st data =
     st\<lparr>parsedData := Some ((case parsedData st of None \<Rightarrow> Map.empty | Some p \<Rightarrow> p) ++ data),
        isEditing := False\<rparr>"

section \<open>Form validation (react-hook-form rules registered by the App)\<close>

text \<open>
  The options passed to \<open>register\<close>: \<open>required\<close>, \<open>min\<close>, \<open>max\<close> (numbers) and \<open>pattern\<close>
  (a regular expression, here its matching function). The messages are left out.
\<close>

record FieldRules =
  rule_required :: bool
  rule_min :: "real option"
  rule_max :: "real option"
  rule_pattern :: "(string \<Rightarrow> bool) option"

datatype ViolationKind = RequiredViolation | MinViolation | MaxViolation | PatternViolation

definition exceeds_max :: "jsnum \<Rightarrow> real option \<Rightarrow> bool" where
  "exceeds_max n mx =
     (case mx of
        None \<Rightarrow> False
      | Some b \<Rightarrow> (case n of Fin x \<Rightarrow> b < x | PosInf \<Rightarrow> True | _ \<Rightarrow> False))"

definition below_min :: "jsnum \<Rightarrow> real option \<Rightarrow> bool" where
  "below_min n mn =
     (case mn of
        None \<Rightarrow> False
      | Some b \<Rightarrow> (case n of Fin x \<Rightarrow> x < b | NegInf \<Rightarrow> True | _ \<Rightarrow> False))"

text \<open>
  The library's check of one field, in its order: \<open>required\<close>; then, for a value that is
  not empty and converts to a number, \<open>max\<close> and \<open>min\<close>; then \<open>pattern\<close> for a value that is
  not empty. The first violation is reported. A value that is empty passes every rule but
  \<open>required\<close>.
\<close>

definition validateField :: "FieldRules \<Rightarrow> string option \<Rightarrow> ViolationKind option" where
  "validateField r v =
     (if rule_required r \<and> \<not> truthy v then Some RequiredViolation
      else if truthy v \<and> toNumber (the v) \<noteq> NaN \<and> exceeds_max (toNumber (the v)) (rule_max r)
        then Some MaxViolation
      else if truthy v \<and> toNumber (the v) \<noteq> NaN \<and> below_min (toNumber (the v)) (rule_min r)
        then Some MinViolation
      else (case rule_pattern r of
              None \<Rightarrow> None
            | Some matches \<Rightarrow>
                if truthy v \<and> \<not> matches (the v) then Some PatternViolation else None))"

type_synonym FormRules = "(string \<times> FieldRules) list"

text \<open>The violations of a form: one per field that fails, in the order of registration.\<close>

definition validateForm :: "FormRules \<Rightarrow> ParsedData \<Rightarrow> (string \<times> ViolationKind) list" where
  "validateForm rules data =
     List.map_filter (\<lambda>(name, r). map_option (Pair name) (validateField r (data name))) rules"


text \<open>
  The pattern of the date field:
  \<open>/^(0[1-9]|[12][0-9]|3[01])\/(0[1-9]|1[012])\/\d{4}$/\<close>.
\<close>

definition date_pattern :: "string \<Rightarrow> bool" where
  "date_pattern s =
     (length s = 10
      \<and> ((s ! 0 = CHR ''0'' \<and> s ! 1 \<in> set ''123456789'')
          \<or> (s ! 0 \<in> set ''12'' \<and> is_digit (s ! 1))
          \<or> (s ! 0 = CHR ''3'' \<and> s ! 1 \<in> set ''01''))
      \<and> s ! 2 = CHR ''/''
      \<and> ((s ! 3 = CHR ''0'' \<and> s ! 4 \<in> set ''123456789'')
          \<or> (s ! 3 = CHR ''1'' \<and> s ! 4 \<in> set ''012''))
      \<and> s ! 5 = CHR ''/''
      \<and> is_digit (s ! 6) \<and> is_digit (s ! 7) \<and> is_digit (s ! 8) \<and> is_digit (s ! 9))"

text \<open>
  A field with \<open>min\<close> and \<open>max\<close>: the decimal literals of the source denote the doubles
  nearest to them.
\<close>

definition numberRule :: "real \<Rightarrow> real \<Rightarrow> FieldRules" where
  "numberRule lo hi =
     \<lparr>rule_required = False, rule_min = Some (round_double lo),
      rule_max = Some (round_double hi), rule_pattern = None\<rparr>"


text \<open>The fields of the review form of the App with entry modes, as registered while editing.\<close>

definition editRules :: FormRules where
  "editRules =
     [(''date'', \<lparr>rule_required = False, rule_min = None, rule_max = None,
                  rule_pattern = Some date_pattern\<rparr>),
      (''quantity'', numberRule (1 / 10) 500),
      (''fat'', numberRule 2 11),
      (''clr'', numberRule 15 40),
      (''fatKg'', numberRule (1 / 100) 50),
      (''snfKg'', numberRule (1 / 100) 50),
      (''baseRate'', numberRule (1 / 10) 100),
      (''rate'', numberRule 1 200),
      (''amount'', numberRule 1 100000)]"




section \<open>The backend: tables, policies and receiptService\<close>

datatype Role = Admin | Member | Viewer

record Profile =
  profile_id :: string
  profile_email :: string
  profile_full_name :: "string option"
  profile_phone :: "string option"
  profile_role :: Role

text \<open>
  \<open>Omit<Receipt, "id" | "user_id" | "created_at">\<close>: what the App hands to \<open>saveReceipt\<close>.
\<close>

record ReceiptData =
  date :: string
  quantity :: string
  fat :: string
  clr :: string
  fat_kg :: "string option"
  snf_kg :: "string option"
  base_rate :: string
  rate :: string
  amount :: string
  image_url :: string

text \<open>
  A row of the table \<open>receipts\<close>, as \<open>select("*")\<close> returns it: every column is present,
  a column that is \<open>NULL\<close> is \<open>None\<close>; timestamps are text.
\<close>

record Receipt = ReceiptData +
  receipt_id :: string
  user_id :: string
  uploaded_by_name :: "string option"
  created_at :: string
  updated_at :: string

text \<open>
  The Supabase project and the session: the tables \<open>auth.users\<close> (ids), \<open>profiles\<close> and
  \<open>receipts\<close>, the objects of the storage bucket \<open>receipts\<close>, the signed-in user
  (\<open>auth.uid()\<close>), the client's clock (\<open>Date.now()\<close>), the server's \<open>now()\<close> as text, the
  next value of \<open>gen_random_uuid()\<close> and the project URL. Failures of the network are not
  modelled: a request fails only when a policy or a constraint rejects it.
\<close>

record Backend =
  auth_users :: "string list"
  profiles :: "Profile list"
  receipts :: "Receipt list"
  storage_objects :: "(string \<times> Blob) list"
  auth_uid :: "string option"
  date_now :: nat
  sql_now :: string
  next_uuid :: string
  supabase_url :: string

datatype SupabaseError =
    StoragePolicyViolation
  | StorageObjectExists
  | RowPolicyViolation
  | ForeignKeyViolation
  | UniqueViolation

text \<open>
  \<open>EXISTS (SELECT 1 FROM profiles WHERE profiles.id = auth.uid() AND profiles.role IN
  (...))\<close>, for a request of the role \<open>authenticated\<close>.
\<close>

definition has_role :: "Backend \<Rightarrow> Role list \<Rightarrow> bool" where
  "has_role be roles =
     (case auth_uid be of
        None \<Rightarrow> False
      | Some uid \<Rightarrow>
          list_ex (\<lambda>p. profile_id p = uid \<and> profile_role p \<in> set roles) (profiles be))"

text \<open>
  \<open>supabase.storage.from("receipts").upload(path, blob, ...)\<close> under the policy "Admin and
  Members can upload"; without \<open>upsert\<close> an existing path is an error.
\<close>

definition storage_upload :: "Backend \<Rightarrow> string \<Rightarrow> Blob \<Rightarrow> SupabaseError + Backend" where
  "storage_upload be path blob =
     (if \<not> has_role be [Admin, Member] then Inl StoragePolicyViolation
      else if map_of (storage_objects be) path \<noteq> None then Inl StorageObjectExists
      else Inr (be\<lparr>storage_objects := storage_objects be @ [(path, blob)]\<rparr>))"

definition getPublicUrl :: "Backend \<Rightarrow> string \<Rightarrow> string" where
  "getPublicUrl be path = supabase_url be @ ''/storage/v1/object/public/receipts/'' @ path"

text \<open>
  \<open>supabase.from("receipts").insert([row]).select().single()\<close> under the policy "Admin
  and Members can insert receipts", the foreign key of \<open>user_id\<close> and the primary key. The
  columns that are \<open>NOT NULL\<close> are strings in the payload, so that constraint cannot fail;
  \<open>id\<close>, \<open>created_at\<close> and \<open>updated_at\<close> take their defaults.
\<close>

definition insert_receipt ::
  "Backend \<Rightarrow> string \<Rightarrow> ReceiptData \<Rightarrow> SupabaseError + (Receipt \<times> Backend)" where
  "insert_receipt be userId payload =
     (if \<not> has_role be [Admin, Member] then Inl RowPolicyViolation
      else if userId \<notin> set (auth_users be) then Inl ForeignKeyViolation
      else if next_uuid be \<in> set (map receipt_id (receipts be)) then Inl UniqueViolation
      else
        (let row = \<lparr>date = date payload, quantity = quantity payload, fat = fat payload,
                    clr = clr payload, fat_kg = fat_kg payload, snf_kg = snf_kg payload,
                    base_rate = base_rate payload, rate = rate payload,
                    amount = amount payload, image_url = image_url payload,
                    receipt_id = next_uuid be, user_id = userId, uploaded_by_name = None,
                    created_at = sql_now be, updated_at = sql_now be\<rparr>
         in Inr (row, be\<lparr>receipts := receipts be @ [row]\<rparr>)))"

text \<open>
  \<open>saveReceipt\<close>: the image is uploaded when there is one, then the row is inserted with
  the public URL of the image. The result is the id of the row, or the error thrown; the
  backend is returned as the call left it (an upload is not undone when the insert
  fails).
\<close>

definition saveReceipt ::
  "Backend \<Rightarrow> string \<Rightarrow> ReceiptData \<Rightarrow> Blob option \<Rightarrow> (SupabaseError + string) \<times> Backend" where
  "saveReceipt be userId receiptData imageBlob =
     (let fileName = userId @ ''/'' @ digits_of (date_now be) @ ''.jpg'';
          uploaded = (case imageBlob of
                        None \<Rightarrow> Inr (be, '''')
                      | Some blob \<Rightarrow>
                          (case storage_upload be fileName blob of
                             Inl uploadError \<Rightarrow> Inl uploadError
                           | Inr be1 \<Rightarrow> Inr (be1, getPublicUrl be1 fileName)))
      in case uploaded of
           Inl uploadError \<Rightarrow> (Inl uploadError, be)
         | Inr (be1, publicUrl) \<Rightarrow>
             (case insert_receipt be1 userId
                     \<lparr>date = date receiptData, quantity = quantity receiptData,
                      fat = fat receiptData, clr = clr receiptData,
                      fat_kg = fat_kg receiptData, snf_kg = snf_kg receiptData,
                      base_rate = base_rate receiptData, rate = rate receiptData,
                      amount = amount receiptData, image_url = publicUrl\<rparr> of
                Inl error \<Rightarrow> (Inl error, be1)
              | Inr (row, be2) \<Rightarrow> (Inr (receipt_id row), be2)))"

text \<open>
  \<open>getUserReceipts\<close>: \<open>select("*").eq("user_id", userId).order("created_at", { ascending:
  false })\<close> under the policy "Everyone can view all receipts" (every row, for a signed-in
  user; none otherwise).
\<close>

definition visible_receipts :: "Backend \<Rightarrow> Receipt list" where
  "visible_receipts be = (if auth_uid be = None then [] else receipts be)"

definition getUserReceipts :: "Backend \<Rightarrow> string \<Rightarrow> Receipt list" where
  "getUserReceipts be userId =
     rev (sort_key created_at (filter (\<lambda>r. user_id r = userId) (visible_receipts be)))"

section \<open>Saving the session record\<close>

definition handleReset :: "AppState \<Rightarrow> AppState" where
  "handleReset st =
     st\<lparr>selectedImage := None, compressedBlob := None, parsedData := None, isEditing := False\<rparr>"

text \<open>The object \<open>receiptData\<close> built from the session record, the same on both paths.\<close>

definition receiptData_of :: "ParsedData \<Rightarrow> ReceiptData" where
  "receiptData_of pd =
     \<lparr>date = or_else (pd ''date'') '''',
      quantity = or_else (pd ''quantity'') '''',
      fat = or_else (pd ''fat'') '''',
      clr = or_else (pd ''clr'') '''',
      fat_kg = pd ''fatKg'',
      snf_kg = pd ''snfKg'',
      base_rate = or_else (pd ''baseRate'') '''',
      rate = or_else (pd ''rate'') '''',
      amount = or_else (pd ''amount'') '''',
      image_url = ''''\<rparr>"

text \<open>The \<open>try\<close>/\<open>catch\<close>/\<open>finally\<close> around \<open>saveReceipt\<close>, the same on both paths.\<close>

definition saveAndReport ::
  "Backend \<Rightarrow> string \<Rightarrow> AppState \<Rightarrow> ParsedData \<Rightarrow> Blob \<Rightarrow> AppState \<times> Backend" where
  "saveAndReport be uid st pd blob =
     (case saveReceipt be uid (receiptData_of pd) (Some blob) of
        (Inr new_id, be1) \<Rightarrow>
          ((handleReset (st\<lparr>alerts := alerts st @ [''Receipt saved successfully!'']\<rparr>))
             \<lparr>isSaving := False\<rparr>, be1)
      | (Inl error, be1) \<Rightarrow>
          (st\<lparr>alerts := alerts st @ [''Failed to save receipt. Please try again.''],
              isSaving := False\<rparr>, be1))"

text \<open>
  \<open>handleSaveReceipt\<close>, for the signed-in user \<open>user\<close> (\<open>None\<close> when nobody is signed in). A
  manual entry has no photo: a card of 400 by 300 pixels is drawn and saved as its image.
\<close>

definition handleSaveReceipt ::
  "Backend \<Rightarrow> string option \<Rightarrow> AppState \<Rightarrow> AppState \<times> Backend" where
  "handleSaveReceipt be user st =
     (case (user, parsedData st) of
        (Some uid, Some pd) \<Rightarrow>
          if entryMode st = Manual \<and> compressedBlob st = None then
            (case toBlob 400 300 ''image/jpeg'' (8 / 10) of
               Some blob \<Rightarrow> saveAndReport be uid st pd blob
             | None \<Rightarrow> (st, be))
          else
            (case compressedBlob st of
               None \<Rightarrow> (st, be)
             | Some blob \<Rightarrow> saveAndReport be uid st pd blob)
      | _ \<Rightarrow> (st, be))"

section \<open>The records view\<close>

text \<open>\<open>String(val)\<close> for a column that may be \<open>null\<close>.\<close>

definition String_of_column :: "string option \<Rightarrow> string" where
  "String_of_column v = (case v of None \<Rightarrow> ''null'' | Some s \<Rightarrow> s)"

text \<open>\<open>Object.values(r)\<close>, each as \<open>String(val)\<close>, in the order of the columns.\<close>

definition receipt_values :: "Receipt \<Rightarrow> string list" where
  "receipt_values r =
     [receipt_id r, user_id r, String_of_column (uploaded_by_name r), date r, quantity r,
      fat r, clr r, String_of_column (fat_kg r), String_of_column (snf_kg r), base_rate r,
      rate r, amount r, image_url r, created_at r, updated_at r]"

definition matchesFilter :: "string \<Rightarrow> Receipt \<Rightarrow> bool" where
  "matchesFilter globalFilter r =
     list_ex (\<lambda>v. includes_str (toLowerCase v) (toLowerCase globalFilter)) (receipt_values r)"

text \<open>
  The date library's \<open>parse(s, 'dd/MM/yyyy', ...)\<close>: one or two digits, a slash, one or two
  digits, a slash, one to four digits and nothing but white space after them; the year is
  positive, the month is 1 to 12 and the day exists in that month. \<open>None\<close> is the invalid
  date.
\<close>

definition scan_digits :: "nat \<Rightarrow> string \<Rightarrow> (nat \<times> string) option" where
  "scan_digits n s =
     (let ds = takeWhile is_digit (take n s)
      in if ds = [] then None else Some (nat_of_digits ds, drop (length ds) s))"

definition expect_char :: "char \<Rightarrow> string \<Rightarrow> string option" where
  "expect_char c s = (case s of [] \<Rightarrow> None | x # xs \<Rightarrow> if x = c then Some xs else None)"

definition is_leap_year :: "nat \<Rightarrow> bool" where
  "is_leap_year y = (y mod 400 = 0 \<or> (y mod 4 = 0 \<and> y mod 100 \<noteq> 0))"

definition days_in_month :: "nat \<Rightarrow> nat \<Rightarrow> nat" where
  "days_in_month y m =
     (if m = 2 then (if is_leap_year y then 29 else 28)
      else if m \<in> set [4, 6, 9, 11] then 30 else 31)"

definition parse_ddMMyyyy :: "string \<Rightarrow> (nat \<times> nat \<times> nat) option" where
  "parse_ddMMyyyy s =
     (case scan_digits 2 s of
        None \<Rightarrow> None
      | Some (d, s1) \<Rightarrow>
          (case expect_char (CHR ''/'') s1 of
             None \<Rightarrow> None
           | Some s2 \<Rightarrow>
               (case scan_digits 2 s2 of
                  None \<Rightarrow> None
                | Some (m, s3) \<Rightarrow>
                    (case expect_char (CHR ''/'') s3 of
                       None \<Rightarrow> None
                     | Some s4 \<Rightarrow>
                         (case scan_digits 4 s4 of
                            None \<Rightarrow> None
                          | Some (y, s5) \<Rightarrow>
                              if list_all is_space s5 \<and> 0 < y \<and> 1 \<le> m \<and> m \<le> 12
                                 \<and> 1 \<le> d \<and> d \<le> days_in_month y m
                              then Some (y, m, d) else None)))))"

definition month_names :: "string list" where
  "month_names =
     [''January'', ''February'', ''March'', ''April'', ''May'', ''June'', ''July'',
      ''August'', ''September'', ''October'', ''November'', ''December'']"

text \<open>
  \<open>format(parse(s, 'dd/MM/yyyy', new Date()), 'MMMM yyyy')\<close>: the name of the month and the
  year in four digits; \<open>None\<close> when \<open>format\<close> throws on the invalid date.
\<close>

definition monthYear_of :: "string \<Rightarrow> string option" where
  "monthYear_of s =
     (case parse_ddMMyyyy s of
        None \<Rightarrow> None
      | Some (y, m, d) \<Rightarrow>
          Some (month_names ! (m - 1) @ '' '' @ padStart 4 (CHR ''0'') (digits_of y)))"

text \<open>
  \<open>GroupedReceipts\<close>: an object whose keys are month labels, in the order in which they
  were added.
\<close>

type_synonym GroupedReceipts = "(string \<times> Receipt list) list"

text \<open>\<open>if (!groups[monthYear]) groups[monthYear] = []; groups[monthYear].push(receipt)\<close>.\<close>

definition group_push :: "GroupedReceipts \<Rightarrow> string \<Rightarrow> Receipt \<Rightarrow> GroupedReceipts" where
  "group_push groups k r =
     (case map_of groups k of
        None \<Rightarrow> groups @ [(k, [r])]
      | Some members \<Rightarrow> map (\<lambda>(k', g). if k' = k then (k', g @ [r]) else (k', g)) groups)"

definition groupReceiptsByMonth :: "string \<Rightarrow> Receipt list \<Rightarrow> GroupedReceipts" where
  "groupReceiptsByMonth globalFilter rs =
     (let filtered = (if globalFilter \<noteq> [] then filter (matchesFilter globalFilter) rs else rs)
      in foldl (\<lambda>groups receipt.
                  case monthYear_of (date receipt) of
                    None \<Rightarrow> groups
                  | Some monthYear \<Rightarrow> group_push groups monthYear receipt)
               [] filtered)"

text \<open>
  The total of a month group:
  \<open>monthReceipts.reduce((sum, r) => sum + parseFloat(r.amount), 0).toFixed(2)\<close>.
\<close>

definition monthTotal :: "Receipt list \<Rightarrow> string" where
  "monthTotal monthReceipts =
     toFixed 2 (foldl (\<lambda>sum r. jsnum_add sum (parseFloat (amount r))) (Fin 0) monthReceipts)"

text \<open>The month groups as the view shows them: label, rows and total.\<close>

definition monthGroups :: "string \<Rightarrow> Receipt list \<Rightarrow> (string \<times> Receipt list \<times> string) list" where
  "monthGroups globalFilter rs =
     map (\<lambda>(monthYear, monthReceipts). (monthYear, monthReceipts, monthTotal monthReceipts))
       (groupReceiptsByMonth globalFilter rs)"

section \<open>Notions used to state the properties\<close>

text \<open>
  The definitions of this section do not embed code: they say, in the words of the
  specification, what the code is compared with.
\<close>

text \<open>The common factor by which \<open>compressImage\<close> scales both sides of a picture.\<close>

definition scale_factor :: "nat \<Rightarrow> nat \<Rightarrow> real" where
  "scale_factor w h = (if max w h \<le> maxSize then 1 else real maxSize / real (max w h))"

text \<open>A text contains a \<open>{...}\<close> span: an opening brace with a closing brace after it.\<close>

definition has_brace_span :: "string \<Rightarrow> bool" where
  "has_brace_span s = (\<exists>a b c. s = a @ CHR ''{'' # b @ CHR ''}'' # c)"

text \<open>A number below 100 written with exactly two digits.\<close>

definition two_digits :: "nat \<Rightarrow> string" where
  "two_digits n = [''0123456789'' ! (n div 10), ''0123456789'' ! (n mod 10)]"


text \<open>The distinct elements of a list, each at the place of its first occurrence.\<close>

definition first_occurrences :: "'a list \<Rightarrow> 'a list" where
  "first_occurrences xs = rev (remdups (rev xs))"

text \<open>
  Grouping by a key: one group per key, in the order in which the keys first occur; a
  group holds the elements with its key in their original order; an element without a
  key is in no group.
\<close>

definition grouped_by :: "('a \<Rightarrow> 'k option) \<Rightarrow> 'a list \<Rightarrow> ('k \<times> 'a list) list" where
  "grouped_by key xs =
     map (\<lambda>k. (k, filter (\<lambda>x. key x = Some k) xs)) (first_occurrences (List.map_filter key xs))"

section \<open>Example inputs\<close>

definition initial_state :: AppState where
  "initial_state =
     \<lparr>currentView = Upload, entryMode = Camera, selectedImage = None, compressedBlob = None,
      parsedData = None, isProcessing = False, isEditing = False, isSaving = False,
      alerts = []\<rparr>"

text \<open>
  Three photos, last modified on 2024-01-05 at 20:00 UTC: a large one, a small one and a
  very wide one.
\<close>

definition photo_large :: JSFile where
  "photo_large =
     \<lparr>file_name = ''slip.jpg'', lastModified = 1704484800000, file_type = ''image/jpeg'',
      picture = Some (4000, 3000)\<rparr>"

definition photo_small :: JSFile where
  "photo_small =
     \<lparr>file_name = ''small.png'', lastModified = 1704484800000, file_type = ''image/png'',
      picture = Some (800, 600)\<rparr>"

definition photo_wide :: JSFile where
  "photo_wide =
     \<lparr>file_name = ''strip.png'', lastModified = 1704484800000, file_type = ''image/png'',
      picture = Some (10000, 5)\<rparr>"

definition photo_medium :: JSFile where
  "photo_medium =
     \<lparr>file_name = ''medium.jpg'', lastModified = 1704484800000, file_type = ''image/jpeg'',
      picture = Some (1200, 1600)\<rparr>"

text \<open>
  A model that answers the large photo with a JSON object without a date, the small one
  with prose, and any other with braces around something that is not JSON; local time is
  five and a half hours ahead of UTC.
\<close>

definition response_json :: string where
  "response_json = ''Here is the data: {\"quantity\": \"12.5\", \"fat\": \"4.1\", \"amount\": \"450\"}''"

definition response_prose :: string where
  "response_prose = ''Sorry, I cannot read this receipt.''"

definition response_broken :: string where
  "response_broken = ''Result: {quantity: 12.5,}''"

definition example_parse :: "string \<Rightarrow> ParsedData option" where
  "example_parse s =
     (if s = ''{\"quantity\": \"12.5\", \"fat\": \"4.1\", \"amount\": \"450\"}''
      then Some [''quantity'' \<mapsto> ''12.5'', ''fat'' \<mapsto> ''4.1'', ''amount'' \<mapsto> ''450'']
      else None)"

definition example_env :: Env where
  "example_env =
     \<lparr>apiKey = Some ''test-key'',
      generateContent = (\<lambda>key blob.
         if blob_width blob = 1600 then Some response_json
         else if blob_width blob = 800 then Some response_prose
         else Some response_broken),
      JSON_parse = example_parse,
      createObjectURL = (\<lambda>blob. ''blob:preview''),
      localTZA = (\<lambda>t. 19800000)\<rparr>"

text \<open>A model that reads SNF and fat off the slip, and no lactometer reading.\<close>

definition response_snf :: string where
  "response_snf = ''{\"fat\": \"4.1\", \"snfKg\": \"3.2\"}''"

definition snf_env :: Env where
  "snf_env =
     \<lparr>apiKey = Some ''test-key'',
      generateContent = (\<lambda>key blob. Some response_snf),
      JSON_parse = (\<lambda>s. if s = response_snf then Some [''fat'' \<mapsto> ''4.1'', ''snfKg'' \<mapsto> ''3.2'']
                          else None),
      createObjectURL = (\<lambda>blob. ''blob:preview''),
      localTZA = (\<lambda>t. 19800000)\<rparr>"

text \<open>What a user types into the manual entry form.\<close>

definition example_manual_data :: ParsedData where
  "example_manual_data =
     [''date'' \<mapsto> ''2024-01-05'', ''quantity'' \<mapsto> ''12.5'', ''fat'' \<mapsto> ''4.0'',
      ''snfKg'' \<mapsto> ''3.2'', ''rate'' \<mapsto> ''36'', ''amount'' \<mapsto> ''450'']"


text \<open>
  A project with three accounts (a member, an admin and a viewer), nothing stored yet, and
  the member signed in.
\<close>

definition example_backend :: Backend where
  "example_backend =
     \<lparr>auth_users = [''user-1'', ''user-2'', ''user-3''],
      profiles =
        [\<lparr>profile_id = ''user-1'', profile_email = ''member@example.com'',
          profile_full_name = None, profile_phone = None, profile_role = Member\<rparr>,
         \<lparr>profile_id = ''user-2'', profile_email = ''admin@example.com'',
          profile_full_name = None, profile_phone = None, profile_role = Admin\<rparr>,
         \<lparr>profile_id = ''user-3'', profile_email = ''viewer@example.com'',
          profile_full_name = None, profile_phone = None, profile_role = Viewer\<rparr>],
      receipts = [],
      storage_objects = [],
      auth_uid = Some ''user-1'',
      date_now = 1704485000000,
      sql_now = ''2024-01-05T20:03:20+00:00'',
      next_uuid = ''uuid-1'',
      supabase_url = ''https://project.supabase.co''\<rparr>"

text \<open>A session record whose quantity is below the minimum of the review form.\<close>

definition low_quantity_record :: ParsedData where
  "low_quantity_record =
     [''rawText'' \<mapsto> ''{}'', ''date'' \<mapsto> ''05/01/2024'', ''quantity'' \<mapsto> ''0.099'',
      ''fat'' \<mapsto> ''4.1'', ''clr'' \<mapsto> ''28'', ''baseRate'' \<mapsto> ''70.50'', ''rate'' \<mapsto> ''36'',
      ''amount'' \<mapsto> ''450'']"

text \<open>A session record in which only the quantity and the amount are set.\<close>

definition sparse_record :: ParsedData where
  "sparse_record = [''rawText'' \<mapsto> ''{}'', ''quantity'' \<mapsto> ''12.5'', ''amount'' \<mapsto> ''450'']"

definition example_blob :: Blob where
  "example_blob =
     \<lparr>blob_width = 1600, blob_height = 1200, blob_type = ''image/jpeg'',
      blob_quality = 85 / 100\<rparr>"

text \<open>The review screen after a capture, not editing, with the given session record.\<close>

definition captured_state :: "ParsedData \<Rightarrow> AppState" where
  "captured_state pd =
     initial_state\<lparr>selectedImage := Some ''blob:preview'', compressedBlob := Some example_blob,
                   parsedData := Some pd\<rparr>"

text \<open>Three stored receipts: two of the member, one of the admin.\<close>

definition receipt_jan5 :: Receipt where
  "receipt_jan5 =
     \<lparr>date = ''05/01/2024'', quantity = ''10'', fat = ''4.1'', clr = ''28'', fat_kg = None,
      snf_kg = None, base_rate = ''70.50'', rate = ''36'', amount = ''100'',
      image_url = ''https://project.supabase.co/storage/v1/object/public/receipts/user-1/1.jpg'',
      receipt_id = ''uuid-a'', user_id = ''user-1'', uploaded_by_name = None,
      created_at = ''2024-01-05T20:03:20+00:00'', updated_at = ''2024-01-05T20:03:20+00:00''\<rparr>"

definition receipt_jan20 :: Receipt where
  "receipt_jan20 =
     \<lparr>date = ''20/01/2024'', quantity = ''20'', fat = ''4.2'', clr = ''29'', fat_kg = None,
      snf_kg = None, base_rate = ''71.50'', rate = ''37'', amount = ''200'',
      image_url = ''https://project.supabase.co/storage/v1/object/public/receipts/user-2/2.jpg'',
      receipt_id = ''uuid-b'', user_id = ''user-2'', uploaded_by_name = None,
      created_at = ''2024-01-20T20:03:20+00:00'', updated_at = ''2024-01-20T20:03:20+00:00''\<rparr>"

definition receipt_feb1 :: Receipt where
  "receipt_feb1 =
     \<lparr>date = ''01/02/2024'', quantity = ''30'', fat = ''4.3'', clr = ''30'', fat_kg = None,
      snf_kg = None, base_rate = ''72.50'', rate = ''38'', amount = ''300'',
      image_url = ''https://project.supabase.co/storage/v1/object/public/receipts/user-1/3.jpg'',
      receipt_id = ''uuid-c'', user_id = ''user-1'', uploaded_by_name = None,
      created_at = ''2024-02-01T20:03:20+00:00'', updated_at = ''2024-02-01T20:03:20+00:00''\<rparr>"

definition two_owner_backend :: Backend where
  "two_owner_backend = example_backend\<lparr>receipts := [receipt_jan5, receipt_jan20]\<rparr>"

section \<open>Properties\<close>

lemma map_add_twice: "(m ++ d) ++ d = m ++ d"
  by (rule ext) (simp add: map_add_def split: option.split)

subsection \<open>C9: merging the session record with the same form data is idempotent\<close>

text \<open>
  C9. The reconcile step of the review screen is \<open>onSubmit\<close>: the form data override the
  session record property by property. Submitting the same data a second time, with no
  further edit, leaves the state (and so the session record) exactly as the first
  submission left it, and the record after a submission is the old record overridden by
  the data.
\<close>

theorem onSubmit_idempotent:
  "onSubmit (onSubmit st data) data = onSubmit st data
   \<and> parsedData (onSubmit st data)
       = Some ((case parsedData st of None \<Rightarrow> Map.empty | Some p \<Rightarrow> p) ++ data)"
  by (simp add: onSubmit_def map_add_twice)

subsection \<open>C5: the dimensions and the encoding of a compressed image\<close>

lemma scaled_dimensions_factor:
  "scaled_dimensions w h = (scale_factor w h * real w, scale_factor w h * real h)"
  by (auto simp: scaled_dimensions_def scale_factor_def max_def maxSize_def)

lemma scale_factor_le:
  "scale_factor w h * real w \<le> 1600" "scale_factor w h * real h \<le> 1600"
  by (auto simp: scale_factor_def max_def maxSize_def divide_simps)

lemma scale_factor_unit: "w \<le> 1600 \<Longrightarrow> h \<le> 1600 \<Longrightarrow> scale_factor w h = 1"
  by (simp add: scale_factor_def maxSize_def)

lemma canvas_dimension_le: "x \<le> 1600 \<Longrightarrow> canvas_dimension x \<le> 1600"
  unfolding canvas_dimension_def by linarith

text \<open>
  C5. For a file that decodes to a picture of \<open>w\<close> by \<open>h\<close> pixels, \<open>compressImage\<close> either
  fails with \<open>Compression failed\<close>, which happens only when a scaled side is less than one
  pixel, or returns a blob that is at most 1600 pixels wide and high, whose sides are the
  picture's sides times one common factor, rounded down to whole pixels (the aspect
  ratio, within rounding), encoded as \<open>image/jpeg\<close> at quality 0.85. A picture within 1600
  pixels on both sides keeps its dimensions; a larger one has its longer side at 1600.
\<close>

theorem compressImage_bounded:
  assumes "picture file = Some (w, h)"
  shows "case compressImage file of
           Inl e \<Rightarrow> e = CompressionFailed
                    \<and> (nat \<lfloor>scale_factor w h * real w\<rfloor> = 0
                        \<or> nat \<lfloor>scale_factor w h * real h\<rfloor> = 0)
         | Inr blob \<Rightarrow>
             blob_width blob \<le> 1600 \<and> blob_height blob \<le> 1600
             \<and> blob_width blob = nat \<lfloor>scale_factor w h * real w\<rfloor>
             \<and> blob_height blob = nat \<lfloor>scale_factor w h * real h\<rfloor>
             \<and> 0 < blob_width blob \<and> 0 < blob_height blob
             \<and> blob_type blob = ''image/jpeg'' \<and> blob_quality blob = 85 / 100
             \<and> (if w \<le> 1600 \<and> h \<le> 1600 then blob_width blob = w \<and> blob_height blob = h
                 else blob_width blob = 1600 \<or> blob_height blob = 1600)"
proof -
  let ?s = "scale_factor w h"
  have le: "canvas_dimension (?s * real w) \<le> 1600" "canvas_dimension (?s * real h) \<le> 1600"
    by (simp_all add: canvas_dimension_le scale_factor_le)
  have big: "\<not> (w \<le> 1600 \<and> h \<le> 1600) \<Longrightarrow> ?s * real w = 1600 \<or> ?s * real h = 1600"
    by (auto simp: scale_factor_def max_def maxSize_def)
  show ?thesis
    using assms le big
    by (auto simp: compressImage_def scaled_dimensions_factor toBlob_def Let_def
          canvas_dimension_def scale_factor_unit split: option.splits)
qed

lemma compress_large:
  "compressImage photo_large
     = Inr \<lparr>blob_width = 1600, blob_height = 1200, blob_type = ''image/jpeg'',
            blob_quality = 85 / 100\<rparr>"
  by (simp add: compressImage_def photo_large_def scaled_dimensions_def maxSize_def
        canvas_dimension_def toBlob_def Let_def)

lemma compress_small:
  "compressImage photo_small
     = Inr \<lparr>blob_width = 800, blob_height = 600, blob_type = ''image/jpeg'',
            blob_quality = 85 / 100\<rparr>"
  by (simp add: compressImage_def photo_small_def scaled_dimensions_def maxSize_def
        canvas_dimension_def toBlob_def Let_def)

lemma compress_medium:
  "compressImage photo_medium
     = Inr \<lparr>blob_width = 1200, blob_height = 1600, blob_type = ''image/jpeg'',
            blob_quality = 85 / 100\<rparr>"
  by (simp add: compressImage_def photo_medium_def scaled_dimensions_def maxSize_def
        canvas_dimension_def toBlob_def Let_def)

lemma compress_wide: "compressImage photo_wide = Inl CompressionFailed"
  by (simp add: compressImage_def photo_wide_def scaled_dimensions_def maxSize_def
        canvas_dimension_def toBlob_def Let_def)

theorem compressImage_bounded_witness:
  "picture photo_large = Some (4000, 3000)
   \<and> (\<exists>blob. compressImage photo_large = Inr blob
         \<and> blob_width blob = 1600 \<and> blob_height blob = 1200
         \<and> blob_width blob \<le> 1600 \<and> blob_height blob \<le> 1600
         \<and> blob_width blob = nat \<lfloor>scale_factor 4000 3000 * 4000\<rfloor>
         \<and> blob_height blob = nat \<lfloor>scale_factor 4000 3000 * 3000\<rfloor>
         \<and> blob_type blob = ''image/jpeg'' \<and> blob_quality blob = 85 / 100)"
proof -
  have p: "picture photo_large = Some (4000, 3000)"
    by (simp add: photo_large_def)
  show ?thesis
    using compressImage_bounded [OF p] p by (simp add: compress_large)
qed

subsection \<open>C4: a response without a JSON object leaves no record\<close>

lemma jsonMatch_Some_iff:
  "(jsonMatch s \<noteq> None)
     = (\<exists>u. dropWhile (\<lambda>c. c \<noteq> CHR ''{'') s = CHR ''{'' # u \<and> CHR ''}'' \<in> set u)"
proof -
  let ?t = "dropWhile (\<lambda>c. c \<noteq> CHR ''{'') s"
  show ?thesis
  proof (cases ?t)
    case Nil
    then show ?thesis by (simp add: jsonMatch_def del: dropWhile_eq_Nil_conv)
  next
    case (Cons x u)
    then have "x = CHR ''{''"
      using hd_dropWhile[of "\<lambda>c. c \<noteq> CHR ''{''" s] by auto
    with Cons show ?thesis
      by (auto simp: jsonMatch_def Let_def dropWhile_eq_Nil_conv)
  qed
qed

lemma brace_span_dropWhile:
  "has_brace_span s
     = (\<exists>u. dropWhile (\<lambda>c. c \<noteq> CHR ''{'') s = CHR ''{'' # u \<and> CHR ''}'' \<in> set u)"
proof
  assume "has_brace_span s"
  then obtain a b c where s: "s = a @ CHR ''{'' # b @ CHR ''}'' # c"
    unfolding has_brace_span_def by blast
  let ?P = "\<lambda>c. c \<noteq> CHR ''{''"
  show "\<exists>u. dropWhile ?P s = CHR ''{'' # u \<and> CHR ''}'' \<in> set u"
  proof (cases "\<forall>x\<in>set a. ?P x")
    case True
    then have "dropWhile ?P s = CHR ''{'' # b @ CHR ''}'' # c"
      unfolding s by (simp add: dropWhile_append)
    then show ?thesis by auto
  next
    case False
    then have dw: "dropWhile ?P s = dropWhile ?P a @ CHR ''{'' # b @ CHR ''}'' # c"
      unfolding s by (simp add: dropWhile_append)
    from False have ne: "dropWhile ?P a \<noteq> []" by simp
    then obtain x v where xv: "dropWhile ?P a = x # v" by (cases "dropWhile ?P a") auto
    then have "x = CHR ''{''" using hd_dropWhile[of ?P a] ne by auto
    with dw xv show ?thesis by auto
  qed
next
  assume "\<exists>u. dropWhile (\<lambda>c. c \<noteq> CHR ''{'') s = CHR ''{'' # u \<and> CHR ''}'' \<in> set u"
  then obtain u where u: "dropWhile (\<lambda>c. c \<noteq> CHR ''{'') s = CHR ''{'' # u" "CHR ''}'' \<in> set u"
    by blast
  from u(2) obtain b c where "u = b @ CHR ''}'' # c" by (auto simp: in_set_conv_decomp)
  with u(1) have "s = takeWhile (\<lambda>c. c \<noteq> CHR ''{'') s @ CHR ''{'' # b @ CHR ''}'' # c"
    using takeWhile_dropWhile_id[of "\<lambda>c. c \<noteq> CHR ''{''" s] by simp
  then show "has_brace_span s" unfolding has_brace_span_def by blast
qed

lemma jsonMatch_None_iff: "jsonMatch s = None \<longleftrightarrow> \<not> has_brace_span s"
  using jsonMatch_Some_iff[of s] brace_span_dropWhile[of s] by blast

lemma handleImageUpload_unfold:
  assumes "apiKey env = Some key" "key \<noteq> []"
  shows "handleImageUpload env st (Some file)
           = (let res = processImage env key (st\<lparr>isProcessing := True, parsedData := None\<rparr>) file;
                  st1 = (case snd res of
                           None \<Rightarrow> fst res
                         | Some e \<Rightarrow> (fst res)\<lparr>alerts := alerts (fst res) @ [processAlert]\<rparr>)
              in st1\<lparr>isProcessing := False\<rparr>)"
  using assms by (simp add: handleImageUpload_def truthy_def)

lemma handleSaveReceipt_no_record:
  "parsedData st = None \<Longrightarrow> handleSaveReceipt be user st = (st, be)"
  by (simp add: handleSaveReceipt_def split: option.split)

text \<open>
  C4. With an API key configured, a photo that compresses and a model response that
  either contains no \<open>{...}\<close> span or whose span \<open>JSON.parse\<close> rejects,
  \<open>handleImageUpload\<close> throws inside its \<open>try\<close> block: the session record stays \<open>null\<close>
  (it was cleared before the attempt, and nothing of the response is put into it), the
  failure alert is shown, and processing is over. With no session record,
  \<open>handleSaveReceipt\<close> returns at once: nothing is stored.
\<close>

theorem malformed_response_no_record:
  assumes "apiKey env = Some key" and "key \<noteq> []"
    and "compressImage file = Inr blob"
    and "generateContent env key blob = Some responseText"
    and "\<not> has_brace_span responseText
         \<or> (\<exists>matched. jsonMatch responseText = Some matched \<and> JSON_parse env matched = None)"
  shows "parsedData (handleImageUpload env st (Some file)) = None
         \<and> alerts (handleImageUpload env st (Some file)) = alerts st @ [processAlert]
         \<and> \<not> isProcessing (handleImageUpload env st (Some file))
         \<and> snd (handleSaveReceipt be user (handleImageUpload env st (Some file))) = be"
proof -
  let ?st0 = "st\<lparr>isProcessing := True, parsedData := None\<rparr>"
  let ?st1 = "?st0\<lparr>compressedBlob := Some blob, selectedImage := Some (createObjectURL env blob)\<rparr>"
  have "\<exists>e. processImage env key ?st0 file = (?st1, Some e)"
  proof (cases "jsonMatch responseText")
    case None
    then show ?thesis using assms(3,4) by (simp add: processImage_def)
  next
    case (Some m)
    then have "has_brace_span responseText" using jsonMatch_None_iff[of responseText] by simp
    with assms(5) Some have "JSON_parse env m = None" by auto
    with Some show ?thesis using assms(3,4) by (simp add: processImage_def)
  qed
  then obtain e where "processImage env key ?st0 file = (?st1, Some e)" ..
  then have r: "parsedData (handleImageUpload env st (Some file)) = None
         \<and> alerts (handleImageUpload env st (Some file)) = alerts st @ [processAlert]
         \<and> \<not> isProcessing (handleImageUpload env st (Some file))"
    by (simp add: handleImageUpload_unfold[OF assms(1,2)])
  then have "snd (handleSaveReceipt be user (handleImageUpload env st (Some file))) = be"
    by (simp add: handleSaveReceipt_no_record)
  with r show ?thesis by simp
qed

lemma jsonMatch_prose: "jsonMatch response_prose = None"
  by (simp add: jsonMatch_def response_prose_def)

lemma jsonMatch_broken: "jsonMatch response_broken = Some ''{quantity: 12.5,}''"
  by (simp add: jsonMatch_def response_broken_def)

theorem malformed_response_no_record_witness:
  "\<not> has_brace_span response_prose
   \<and> parsedData (handleImageUpload example_env initial_state (Some photo_small)) = None
   \<and> alerts (handleImageUpload example_env initial_state (Some photo_small)) = [processAlert]
   \<and> jsonMatch response_broken = Some ''{quantity: 12.5,}''
   \<and> JSON_parse example_env ''{quantity: 12.5,}'' = None
   \<and> parsedData (handleImageUpload example_env initial_state (Some photo_medium)) = None
   \<and> alerts (handleImageUpload example_env initial_state (Some photo_medium)) = [processAlert]"
proof -
  have k: "apiKey example_env = Some ''test-key''" "''test-key'' \<noteq> []"
    by (simp_all add: example_env_def)
  have g1: "generateContent example_env ''test-key''
              \<lparr>blob_width = 800, blob_height = 600, blob_type = ''image/jpeg'',
               blob_quality = 85 / 100\<rparr> = Some response_prose"
    by (simp add: example_env_def)
  have g2: "generateContent example_env ''test-key''
              \<lparr>blob_width = 1200, blob_height = 1600, blob_type = ''image/jpeg'',
               blob_quality = 85 / 100\<rparr> = Some response_broken"
    by (simp add: example_env_def)
  have n1: "\<not> has_brace_span response_prose"
    using jsonMatch_None_iff[of response_prose] jsonMatch_prose by simp
  have p2: "JSON_parse example_env ''{quantity: 12.5,}'' = None"
    by (simp add: example_env_def example_parse_def)
  have b1: "\<not> has_brace_span response_prose
            \<or> (\<exists>matched. jsonMatch response_prose = Some matched
                  \<and> JSON_parse example_env matched = None)"
    using n1 by simp
  have b2: "\<not> has_brace_span response_broken
            \<or> (\<exists>matched. jsonMatch response_broken = Some matched
                  \<and> JSON_parse example_env matched = None)"
    using jsonMatch_broken p2 by simp
  show ?thesis
    using malformed_response_no_record
        [OF k compress_small g1 b1, of initial_state example_backend None]
      malformed_response_no_record
        [OF k compress_medium g2 b2, of initial_state example_backend None]
      n1 jsonMatch_broken p2
    by (simp add: initial_state_def)
qed

subsection \<open>C6: the capture date stands in for a missing date\<close>

lemma day_of_year_bounds:
  assumes "0 \<le> doe" "doe < 146097"
  shows "0 \<le> day_of_year doe \<and> day_of_year doe \<le> 365"
proof -
  define doq where "doq = (doe - min 3 (doe div 36524) * 36524) mod 1461"
  have "0 \<le> doq" "doq < 1461" by (simp_all add: doq_def)
  then have "0 \<le> doq - min 3 (doq div 365) * 365 \<and> doq - min 3 (doq div 365) * 365 \<le> 365"
    by (auto simp: min_def)
  then show ?thesis unfolding day_of_year_def Let_def doq_def .
qed

lemma month_day_bounds:
  assumes "0 \<le> doy" "doy \<le> 365"
  shows "1 \<le> month_of doy \<and> month_of doy \<le> 12
         \<and> 1 \<le> day_of_month doy \<and> day_of_month doy \<le> 31"
proof -
  define mp where "mp = (5 * doy + 2) div 153"
  define r where "r = (5 * doy + 2) mod 153"
  have r: "5 * doy + 2 = 153 * mp + r" "0 \<le> r" "r < 153"
    by (simp_all add: mp_def r_def)
  define q where "q = (153 * mp + 2) div 5"
  define r' where "r' = (153 * mp + 2) mod 5"
  have q: "153 * mp + 2 = 5 * q + r'" "0 \<le> r'" "r' < 5"
    by (simp_all add: q_def r'_def)
  have mp: "0 \<le> mp" "mp \<le> 11" using r assms by linarith+
  have dm: "day_of_month doy = doy - q + 1"
    unfolding day_of_month_def Let_def q_def mp_def ..
  have mo: "month_of doy = (if mp < 10 then mp + 3 else mp - 9)"
    unfolding month_of_def Let_def mp_def ..
  have "1 \<le> doy - q + 1" "doy - q + 1 \<le> 31" using r q assms by linarith+
  with mp show ?thesis unfolding dm mo by auto
qed

lemma civil_from_days_eq:
  "civil_from_days z =
     (year_of_era ((z + 719468) mod 146097) + (z + 719468) div 146097 * 400
        + (if month_of (day_of_year ((z + 719468) mod 146097)) \<le> 2 then 1 else 0),
      month_of (day_of_year ((z + 719468) mod 146097)),
      day_of_month (day_of_year ((z + 719468) mod 146097)))"
  unfolding civil_from_days_def Let_def ..

lemma civil_from_days_bounds:
  assumes "civil_from_days z = (y, m, d)"
  shows "1 \<le> m \<and> m \<le> 12 \<and> 1 \<le> d \<and> d \<le> 31"
proof -
  define doe where "doe = (z + 719468) mod 146097"
  have "0 \<le> doe" "doe < 146097" by (simp_all add: doe_def)
  then have "0 \<le> day_of_year doe" "day_of_year doe \<le> 365"
    using day_of_year_bounds[of doe] by blast+
  then have b: "1 \<le> month_of (day_of_year doe) \<and> month_of (day_of_year doe) \<le> 12
      \<and> 1 \<le> day_of_month (day_of_year doe) \<and> day_of_month (day_of_year doe) \<le> 31"
    by (rule month_day_bounds)
  have "m = month_of (day_of_year doe)" "d = day_of_month (day_of_year doe)"
    using assms unfolding civil_from_days_eq doe_def by simp_all
  with b show ?thesis by simp
qed

lemma padStart_two_digits:
  assumes "n < 100"
  shows "padStart 2 (CHR ''0'') (digits_of n) = two_digits n"
proof (cases "n < 10")
  case True
  then show ?thesis
    by (simp add: padStart_def two_digits_def digits_of.simps[of n])
next
  case False
  with assms have "n div 10 < 10" by simp
  with False show ?thesis
    by (simp add: padStart_def two_digits_def digits_of.simps[of n] digits_of.simps[of "n div 10"])
qed

lemma getImageCaptureDate_format:
  assumes "valid_time (lastModified file)"
    and "local_civil env (lastModified file) = (y, m, d)"
  shows "getImageCaptureDate env file
           = two_digits (nat d) @ ''/'' @ two_digits (nat m) @ ''/'' @ string_of_int y
         \<and> 1 \<le> d \<and> d \<le> 31 \<and> 1 \<le> m \<and> m \<le> 12"
proof -
  have b: "1 \<le> m \<and> m \<le> 12 \<and> 1 \<le> d \<and> d \<le> 31"
    using assms(2) unfolding local_civil_def by (rule civil_from_days_bounds)
  then have "nat d < 100" "nat m < 100" by linarith+
  then have pd: "padStart 2 (CHR ''0'') (digits_of (nat d)) = two_digits (nat d)"
    and pm: "padStart 2 (CHR ''0'') (digits_of (nat m)) = two_digits (nat m)"
    by (simp_all add: padStart_two_digits)
  have "getImageCaptureDate env file
          = padStart 2 (CHR ''0'') (string_of_int d) @ ''/''
            @ padStart 2 (CHR ''0'') (string_of_int m) @ ''/'' @ string_of_int y"
    using assms
    by (simp add: getImageCaptureDate_def Let_def getDate_def getMonth_def getFullYear_def
          String_of_def)
  moreover have "string_of_int d = digits_of (nat d)" "string_of_int m = digits_of (nat m)"
    using b by (simp_all add: string_of_int_def)
  ultimately show ?thesis using pd pm b by simp
qed

lemma capture_date_shape:
  "if valid_time (lastModified file)
   then (case local_civil env (lastModified file) of
           (y, m, d) \<Rightarrow>
             getImageCaptureDate env file
               = two_digits (nat d) @ ''/'' @ two_digits (nat m) @ ''/''
                 @ string_of_int y
             \<and> 1 \<le> d \<and> d \<le> 31 \<and> 1 \<le> m \<and> m \<le> 12)
   else getImageCaptureDate env file = ''NaN/NaN/NaN''"
proof (cases "valid_time (lastModified file)")
  case True
  obtain y m d where c: "local_civil env (lastModified file) = (y, m, d)"
    by (cases "local_civil env (lastModified file)") auto
  from getImageCaptureDate_format[OF True c] True c show ?thesis by simp
next
  case False
  then show ?thesis
    by (simp add: getImageCaptureDate_def Let_def getDate_def getMonth_def getFullYear_def
          String_of_def padStart_def)
qed

text \<open>
  C6. When the upload succeeds (key configured, photo compressed, response received, its
  span parsed) and the parsed object has no \<open>date\<close> property, the session record's date is
  \<open>getImageCaptureDate\<close> of the file, and the other properties of the parsed object are
  taken over unchanged. For a time value in the range of \<open>Date\<close>, that string is the local
  calendar day of the file's \<open>lastModified\<close> time: the day of the month in two digits, a
  slash, the month number in two digits, a slash, and the year; outside that range it is
  \<open>NaN/NaN/NaN\<close>.
\<close>

theorem capture_date_fallback:
  assumes "apiKey env = Some key" and "key \<noteq> []"
    and "compressImage file = Inr blob"
    and "generateContent env key blob = Some responseText"
    and "jsonMatch responseText = Some matched"
    and "JSON_parse env matched = Some extractedData"
    and "extractedData ''date'' = None"
  shows "(\<exists>pd. parsedData (handleImageUpload env st (Some file)) = Some pd
            \<and> pd ''date'' = Some (getImageCaptureDate env file)
            \<and> (\<forall>k. k \<noteq> ''date'' \<and> k \<noteq> ''rawText'' \<longrightarrow> pd k = extractedData k))
         \<and> (if valid_time (lastModified file)
             then (case local_civil env (lastModified file) of
                     (y, m, d) \<Rightarrow>
                       getImageCaptureDate env file
                         = two_digits (nat d) @ ''/'' @ two_digits (nat m) @ ''/''
                           @ string_of_int y
                       \<and> 1 \<le> d \<and> d \<le> 31 \<and> 1 \<le> m \<and> m \<le> 12)
             else getImageCaptureDate env file = ''NaN/NaN/NaN'')"
proof -
  let ?st0 = "st\<lparr>isProcessing := True, parsedData := None\<rparr>"
  let ?pd = "[''rawText'' \<mapsto> responseText,
              ''date'' \<mapsto> or_else (extractedData ''date'') (getImageCaptureDate env file)]
             ++ extractedData"
  have "processImage env key ?st0 file
          = (?st0\<lparr>compressedBlob := Some blob,
                     selectedImage := Some (createObjectURL env blob),
                     parsedData := Some ?pd\<rparr>, None)"
    using assms(3-6) by (simp add: processImage_def)
  then have a: "parsedData (handleImageUpload env st (Some file)) = Some ?pd"
    by (simp add: handleImageUpload_unfold[OF assms(1,2)])
  have b: "?pd ''date'' = Some (getImageCaptureDate env file)"
    using assms(7) by (simp add: map_add_def or_else_def)
  have c: "\<forall>k. k \<noteq> ''date'' \<and> k \<noteq> ''rawText'' \<longrightarrow> ?pd k = extractedData k"
    by (simp add: map_add_def split: option.split)
  have first: "\<exists>pd. parsedData (handleImageUpload env st (Some file)) = Some pd
            \<and> pd ''date'' = Some (getImageCaptureDate env file)
            \<and> (\<forall>k. k \<noteq> ''date'' \<and> k \<noteq> ''rawText'' \<longrightarrow> pd k = extractedData k)"
    by (rule exI[of _ ?pd]) (intro conjI a b c)
  show ?thesis
    by (rule conjI[OF first capture_date_shape])
qed

lemma jsonMatch_json:
  "jsonMatch response_json = Some ''{\"quantity\": \"12.5\", \"fat\": \"4.1\", \"amount\": \"450\"}''"
  by (simp add: jsonMatch_def response_json_def)

lemma capture_date_large: "getImageCaptureDate example_env photo_large = ''06/01/2024''"
  unfolding getImageCaptureDate_def getDate_def getMonth_def getFullYear_def valid_time_def
    local_civil_def msPerDay_def civil_from_days_def day_of_year_def year_of_era_def
    month_of_def day_of_month_def Let_def String_of_def string_of_int_def padStart_def
    example_env_def photo_large_def
  by (simp add: digits_of.simps)

theorem capture_date_fallback_witness:
  "(\<exists>pd. parsedData (handleImageUpload example_env initial_state (Some photo_large)) = Some pd
        \<and> pd ''date'' = Some ''06/01/2024''
        \<and> pd ''quantity'' = Some ''12.5'')
   \<and> getImageCaptureDate example_env photo_large = ''06/01/2024''
   \<and> valid_time (lastModified photo_large)"
proof -
  have k: "apiKey example_env = Some ''test-key''" "''test-key'' \<noteq> []"
    by (simp_all add: example_env_def)
  have g: "generateContent example_env ''test-key''
              \<lparr>blob_width = 1600, blob_height = 1200, blob_type = ''image/jpeg'',
               blob_quality = 85 / 100\<rparr> = Some response_json"
    by (simp add: example_env_def)
  have p: "JSON_parse example_env ''{\"quantity\": \"12.5\", \"fat\": \"4.1\", \"amount\": \"450\"}''
             = Some [''quantity'' \<mapsto> ''12.5'', ''fat'' \<mapsto> ''4.1'', ''amount'' \<mapsto> ''450'']"
    by (simp add: example_env_def example_parse_def)
  have d: "[''quantity'' \<mapsto> ''12.5'', ''fat'' \<mapsto> ''4.1'', ''amount'' \<mapsto> ''450''] ''date'' = None"
    by simp
  have v: "valid_time (lastModified photo_large)"
    by (simp add: valid_time_def photo_large_def)
  have q: "[''quantity'' \<mapsto> ''12.5'', ''fat'' \<mapsto> ''4.1'', ''amount'' \<mapsto> ''450''] ''quantity''
             = Some ''12.5''"
    by simp
  from capture_date_fallback [OF k compress_large g jsonMatch_json p d, of initial_state]
  obtain pd where pd: "parsedData (handleImageUpload example_env initial_state (Some photo_large)) = Some pd"
      "pd ''date'' = Some (getImageCaptureDate example_env photo_large)"
      "\<forall>k. k \<noteq> ''date'' \<and> k \<noteq> ''rawText'' \<longrightarrow> pd k = [''quantity'' \<mapsto> ''12.5'', ''fat'' \<mapsto> ''4.1'', ''amount'' \<mapsto> ''450''] k"
    by blast
  from pd(3) have "pd ''quantity'' = Some ''12.5''" using q by simp
  with pd(1,2) v show ?thesis by (auto simp: capture_date_large)
qed

subsection \<open>Doubles: whole numbers are exact\<close>

lemma bitlen_le: "n < 2 ^ k \<Longrightarrow> bitlen n \<le> k"
proof (induction k arbitrary: n)
  case 0
  then show ?case by (simp add: bitlen.simps)
next
  case (Suc k)
  then have "n div 2 < 2 ^ k" by simp
  then have "bitlen (n div 2) \<le> k" by (rule Suc.IH)
  then show ?case by (subst bitlen.simps) simp
qed

lemma bitlen_pos: "0 < n \<Longrightarrow> 0 < bitlen n"
  by (subst bitlen.simps) simp

lemma round_half_even_of_int: "round_half_even (of_int j) = j"
  by (simp add: round_half_even_def)

lemma round_double_nat:
  assumes "n < 2 ^ 53"
  shows "round_double (real n) = real n"
proof (cases "n = 0")
  case True
  then show ?thesis by (simp add: round_double_def)
next
  case False
  define b where "b = bitlen n"
  from False have b1: "0 < b" unfolding b_def by (simp add: bitlen_pos)
  from assms have b2: "b \<le> 53" unfolding b_def by (rule bitlen_le)
  from False have "1 \<le> real n" by simp
  then have l: "ilog2 (real n) = int b - 1"
    by (simp add: ilog2_def b_def)
  have e: "max (int b - 1) (- 1022) - 52 = - int (53 - b)"
    using b1 b2 by simp
  have u: "pow2 (- int (53 - b)) = 1 / 2 ^ (53 - b)"
    by (simp add: pow2_def nat_diff_distrib')
  have q: "real n / (1 / 2 ^ (53 - b)) = of_int (int n * 2 ^ (53 - b))"
    by simp
  have "round_double (real n)
          = of_int (round_half_even (real n / (1 / 2 ^ (53 - b)))) * (1 / 2 ^ (53 - b))"
    using False unfolding round_double_def Let_def abs_of_nat l e u by simp
  also have "\<dots> = real n"
    unfolding q round_half_even_of_int by simp
  finally show ?thesis .
qed

lemma to_double_nat:
  assumes "n < 2 ^ 53"
  shows "to_double (real n) = Fin (real n)"
proof -
  have "real n < real (2 ^ 53)" using assms by (simp only: of_nat_less_iff)
  also have "real (2 ^ 53) \<le> 2 ^ 1024" by simp
  finally have "\<not> 2 ^ 1024 \<le> \<bar>real n\<bar>" by simp
  then show ?thesis
    unfolding to_double_def Let_def round_double_nat[OF assms] by simp
qed

lemma jsnum_add_nat:
  assumes "a + b < 2 ^ 53"
  shows "jsnum_add (Fin (real a)) (Fin (real b)) = Fin (real (a + b))"
  using to_double_nat[OF assms] by simp

lemma to_double_numeral:
  "(numeral k :: nat) < 2 ^ 53 \<Longrightarrow> to_double (numeral k) = Fin (numeral k)"
  using to_double_nat[of "numeral k"] by simp

lemma round_double_numeral:
  "(numeral k :: nat) < 2 ^ 53 \<Longrightarrow> round_double (numeral k) = numeral k"
  using round_double_nat[of "numeral k"] by simp

lemma to_double_0_1: "to_double 0 = Fin 0" "to_double 1 = Fin 1"
  using to_double_nat[of 0] to_double_nat[of 1] by simp_all

lemma round_double_1: "round_double 1 = 1"
  using round_double_nat[of 1] by simp

text \<open>The doubles of the decimals that the examples use.\<close>

lemmas double_defs = to_double_def round_double_def ilog2_def pow2_def round_half_even_def

lemma round_double_values:
  "round_double (1 / 10) = 3602879701896397 / 36028797018963968"
  "round_double (1 / 100) = 5764607523034235 / 576460752303423488"
  unfolding double_defs Let_def by (simp_all add: bitlen.simps)

lemma to_double_values:
  "to_double (1 / 4) = Fin (1 / 4)"
  "to_double (1 / 10) = Fin (3602879701896397 / 36028797018963968)"
  "to_double (99 / 1000) = Fin (3566850904877433 / 36028797018963968)"
  "to_double (50001 / 100) = Fin (2199067236017111 / 4398046511104)"
  "to_double (9999999999999999999 / 100000000000000000000)
     = Fin (3602879701896397 / 36028797018963968)"
  "to_double (16 / 5) = Fin (3602879701896397 / 1125899906842624)"
  "to_double (41 / 10) = Fin (2308094809027379 / 562949953421312)"
  "to_double (141 / 2) = Fin (141 / 2)"
  unfolding double_defs Let_def by (simp_all add: bitlen.simps)

lemma to_double_sums:
  "to_double (2308094809027379 / 2251799813685248) = Fin (2308094809027379 / 2251799813685248)"
  "to_double (4728779608739021 / 1125899906842624) = Fin (4728779608739021 / 1125899906842624)"
  "to_double (9513854212820173 / 2251799813685248) = Fin (2378463553205043 / 562949953421312)"
  unfolding double_defs Let_def by (simp_all add: bitlen.simps)

lemmas scan_defs =
  is_space_def is_digit_def nat_of_digits_def digit_val_def scale10_def radix_literal_def

subsection \<open>C7: the CLR derived by the manual entry form\<close>

lemma digits_of_split:
  assumes "100 \<le> n"
  shows "digits_of n = digits_of (n div 100) @ two_digits (n mod 100)"
proof -
  from assms have a: "\<not> n < 10" "\<not> n div 10 < 10" by simp_all
  have e1: "digits_of n = digits_of (n div 10) @ [''0123456789'' ! (n mod 10)]"
    using a(1) by (subst digits_of.simps) simp
  have d: "n div 10 div 10 = n div 100"
    using div_mult2_eq[of n 10 10] by simp
  have e2: "digits_of (n div 10) = digits_of (n div 100) @ [''0123456789'' ! (n div 10 mod 10)]"
    using a(2) by (subst digits_of.simps) (simp add: d)
  have "n mod 100 div 10 = n div 10 mod 10"
    using mod_mult2_eq[of n 10 10] by simp
  then have e3: "two_digits (n mod 100)
                   = [''0123456789'' ! (n div 10 mod 10), ''0123456789'' ! (n mod 10)]"
    by (simp add: two_digits_def mod_mod_cancel)
  show ?thesis unfolding e1 e2 e3 by simp
qed

lemma length_digits_of: "0 < length (digits_of n)"
  by (simp add: digits_of.simps[of n])

lemma padStart_three:
  "padStart 3 (CHR ''0'') (digits_of n) = digits_of (n div 100) @ two_digits (n mod 100)"
proof -
  consider "n < 10" | "10 \<le> n" "n < 100" | "100 \<le> n" by linarith
  then show ?thesis
  proof cases
    case 1
    then show ?thesis
      by (simp add: padStart_def two_digits_def digits_of.simps[of n] digits_of.simps[of 0]
            numeral_2_eq_2)
  next
    case 2
    then have "n div 10 < 10" "\<not> n < 10" by simp_all
    with 2 show ?thesis
      by (simp add: padStart_def two_digits_def digits_of.simps[of n]
            digits_of.simps[of "n div 10"] digits_of.simps[of 0])
  next
    case 3
    then have "3 \<le> length (digits_of n)"
      using length_digits_of[of "n div 100"]
      by (simp add: digits_of_split two_digits_def Suc_le_eq)
    then have "padStart 3 (CHR ''0'') (digits_of n) = digits_of n"
      by (simp add: padStart_def)
    with 3 show ?thesis by (simp add: digits_of_split)
  qed
qed

lemma toFixed_2_shape:
  assumes "\<bar>q\<bar> < 10 ^ 21"
  shows "toFixed 2 (Fin q)
     = (if q < 0 then ''-'' else [])
       @ digits_of (nat \<lfloor>\<bar>q\<bar> * 100 + 1 / 2\<rfloor> div 100) @ ''.''
       @ two_digits (nat \<lfloor>\<bar>q\<bar> * 100 + 1 / 2\<rfloor> mod 100)"
proof -
  define n where "n = nat \<lfloor>\<bar>q\<bar> * 100 + 1 / 2\<rfloor>"
  have l: "length (digits_of (n div 100) @ two_digits (n mod 100)) - 2 = length (digits_of (n div 100))"
    by (simp add: two_digits_def)
  have "toFixed 2 (Fin q)
          = (if q < 0 then ''-'' else [])
            @ take (length (padStart 3 (CHR ''0'') (digits_of n)) - 2) (padStart 3 (CHR ''0'') (digits_of n))
            @ ''.''
            @ drop (length (padStart 3 (CHR ''0'') (digits_of n)) - 2) (padStart 3 (CHR ''0'') (digits_of n))"
    using assms unfolding toFixed_def Let_def n_def by simp
  then show ?thesis
    unfolding padStart_three l n_def[symmetric] by simp
qed

lemma round_half_up_close:
  fixes x :: real
  assumes "0 \<le> x"
  shows "\<bar>real (nat \<lfloor>x * 100 + 1 / 2\<rfloor>) / 100 - x\<bar> \<le> 1 / 200"
proof -
  define k where "k = \<lfloor>x * 100 + 1 / 2\<rfloor>"
  have "0 \<le> k" using assms unfolding k_def by simp
  then have r: "real (nat k) = of_int k" by simp
  have "of_int k \<le> x * 100 + 1 / 2" "x * 100 + 1 / 2 < of_int k + 1"
    unfolding k_def by linarith+
  then have "real_of_int k / 100 - x \<le> 1 / 200 \<and> - (real_of_int k / 100 - x) \<le> 1 / 200"
    by linarith
  then show ?thesis unfolding k_def[symmetric] r abs_le_iff .
qed

lemma manualSubmit_clr:
  "\<exists>pd. parsedData (manualSubmit st data) = Some pd \<and> pd ''clr'' = Some (manualClr data)"
  by (simp add: manualSubmit_def set_prop_def split: option.split)

text \<open>
  C7, as the code has it. A CLR is derived in one place, the submit handler of the manual
  entry form (which has no field for the lactometer reading). For form data whose SNF and
  fat are present, it sets the session record's \<open>clr\<close> to
  \<open>(parseFloat(snf) + 0.25 * parseFloat(fat)).toFixed(2)\<close>, computed on doubles: the product
  and the sum are each rounded to the nearest double. When that sum is a finite number
  \<open>v\<close> below \<open>10^21\<close> in size, the string is the sign, the digits of a whole number of
  hundredths \<open>n\<close> and a point before the last two, where \<open>n / 100\<close> is within half a
  hundredth of \<open>|v|\<close>: the double \<open>v\<close> is what is rounded to two decimals, not the exact
  decimal sum.
\<close>

theorem manual_clr_derivation:
  assumes "data ''snfKg'' = Some snf" and "snf \<noteq> []"
    and "data ''fat'' = Some fatv" and "fatv \<noteq> []"
  shows "(\<exists>pd. parsedData (manualSubmit st data) = Some pd
            \<and> pd ''clr''
                = Some (toFixed 2 (jsnum_add (parseFloat snf)
                                      (jsnum_mul (Fin (1 / 4)) (parseFloat fatv)))))
         \<and> (jsnum_add (parseFloat snf) (jsnum_mul (Fin (1 / 4)) (parseFloat fatv)) = Fin v
              \<and> \<bar>v\<bar> < 10 ^ 21
            \<longrightarrow> toFixed 2 (Fin v)
                  = (if v < 0 then ''-'' else [])
                    @ digits_of (nat \<lfloor>\<bar>v\<bar> * 100 + 1 / 2\<rfloor> div 100) @ ''.''
                    @ two_digits (nat \<lfloor>\<bar>v\<bar> * 100 + 1 / 2\<rfloor> mod 100)
                \<and> \<bar>real (nat \<lfloor>\<bar>v\<bar> * 100 + 1 / 2\<rfloor>) / 100 - \<bar>v\<bar>\<bar> \<le> 1 / 200)"
proof -
  have c: "manualClr data
             = toFixed 2 (jsnum_add (parseFloat snf) (jsnum_mul (Fin (1 / 4)) (parseFloat fatv)))"
    using assms by (simp add: manualClr_def or_else_def to_double_values)
  have first: "\<exists>pd. parsedData (manualSubmit st data) = Some pd
            \<and> pd ''clr''
                = Some (toFixed 2 (jsnum_add (parseFloat snf)
                                      (jsnum_mul (Fin (1 / 4)) (parseFloat fatv))))"
    using manualSubmit_clr[of st data] unfolding c .
  have second: "jsnum_add (parseFloat snf) (jsnum_mul (Fin (1 / 4)) (parseFloat fatv)) = Fin v
              \<and> \<bar>v\<bar> < 10 ^ 21
            \<longrightarrow> toFixed 2 (Fin v)
                  = (if v < 0 then ''-'' else [])
                    @ digits_of (nat \<lfloor>\<bar>v\<bar> * 100 + 1 / 2\<rfloor> div 100) @ ''.''
                    @ two_digits (nat \<lfloor>\<bar>v\<bar> * 100 + 1 / 2\<rfloor> mod 100)
                \<and> \<bar>real (nat \<lfloor>\<bar>v\<bar> * 100 + 1 / 2\<rfloor>) / 100 - \<bar>v\<bar>\<bar> \<le> 1 / 200"
    by (intro impI conjI toFixed_2_shape round_half_up_close) simp_all
  from first second show ?thesis by (rule conjI)
qed

lemma parseFloat_examples:
  "parseFloat ''3.2'' = Fin (3602879701896397 / 1125899906842624)"
  "parseFloat ''4.0'' = Fin 4"
  "parseFloat ''4.1'' = Fin (2308094809027379 / 562949953421312)"
  unfolding parseFloat_def scan_decimal_def exponent_of_def Let_def
  by (simp_all add: scan_defs to_double_values to_double_numeral)

lemma clr_sums:
  "jsnum_add (Fin (3602879701896397 / 1125899906842624)) (jsnum_mul (Fin (1 / 4)) (Fin 4))
     = Fin (4728779608739021 / 1125899906842624)"
  "jsnum_add (Fin (3602879701896397 / 1125899906842624))
     (jsnum_mul (Fin (1 / 4)) (Fin (2308094809027379 / 562949953421312)))
     = Fin (2378463553205043 / 562949953421312)"
  by (simp_all add: to_double_sums to_double_0_1)

lemma toFixed_examples:
  "toFixed 2 (Fin (4728779608739021 / 1125899906842624)) = ''4.20''"
  "toFixed 2 (Fin (2378463553205043 / 562949953421312)) = ''4.22''"
  unfolding toFixed_def Let_def by (simp_all add: padStart_def digits_of.simps)

theorem manual_clr_derivation_witness:
  "example_manual_data ''snfKg'' = Some ''3.2'' \<and> example_manual_data ''fat'' = Some ''4.0''
   \<and> (\<exists>pd. parsedData (manualSubmit initial_state example_manual_data) = Some pd
         \<and> pd ''clr'' = Some ''4.20'')
   \<and> (\<exists>pd. parsedData (manualSubmit initial_state (example_manual_data(''fat'' \<mapsto> ''4.1'')))
              = Some pd
         \<and> pd ''clr'' = Some ''4.22'')
   \<and> jsnum_add (parseFloat ''3.2'') (jsnum_mul (Fin (1 / 4)) (parseFloat ''4.1''))
       = Fin (2378463553205043 / 562949953421312)
   \<and> \<bar>422 / 100 - 2378463553205043 / 562949953421312\<bar> \<le> (1 / 200 :: real)"
proof -
  have s: "example_manual_data ''snfKg'' = Some ''3.2''" "''3.2'' \<noteq> []"
    and f: "example_manual_data ''fat'' = Some ''4.0''" "''4.0'' \<noteq> []"
    by (simp_all add: example_manual_data_def)
  have s': "(example_manual_data(''fat'' \<mapsto> ''4.1'')) ''snfKg'' = Some ''3.2''"
    and f': "(example_manual_data(''fat'' \<mapsto> ''4.1'')) ''fat'' = Some ''4.1''" "''4.1'' \<noteq> []"
    by (simp_all add: example_manual_data_def)
  from manual_clr_derivation [OF s f, of initial_state]
  have 1: "\<exists>pd. parsedData (manualSubmit initial_state example_manual_data) = Some pd
           \<and> pd ''clr'' = Some ''4.20''"
    unfolding parseFloat_examples clr_sums toFixed_examples by (rule conjunct1)
  note t = manual_clr_derivation [OF s' s(2) f',
      where v = "2378463553205043 / 562949953421312" and st = initial_state,
      unfolded parseFloat_examples clr_sums toFixed_examples]
  from t have 2: "\<exists>pd. parsedData (manualSubmit initial_state (example_manual_data(''fat'' \<mapsto> ''4.1'')))
              = Some pd
           \<and> pd ''clr'' = Some ''4.22''"
    by (rule conjunct1)
  have v: "jsnum_add (parseFloat ''3.2'') (jsnum_mul (Fin (1 / 4)) (parseFloat ''4.1''))
       = Fin (2378463553205043 / 562949953421312)"
    unfolding parseFloat_examples clr_sums ..
  from t have 3: "\<bar>422 / 100 - 2378463553205043 / 562949953421312\<bar> \<le> (1 / 200 :: real)"
    by simp
  from s(1) f(1) 1 2 v 3 show ?thesis by (intro conjI)
qed

text \<open>
  C7 as stated fails for an input of the camera path: a model response with SNF 3.2 and
  fat 4.1 and no lactometer reading gives a session record without \<open>clr\<close>; nothing is
  derived.
\<close>

theorem camera_record_has_no_derived_clr:
  "parsedData (handleImageUpload snf_env initial_state (Some photo_small)) \<noteq> None
   \<and> the (parsedData (handleImageUpload snf_env initial_state (Some photo_small))) ''snfKg''
       = Some ''3.2''
   \<and> the (parsedData (handleImageUpload snf_env initial_state (Some photo_small))) ''fat''
       = Some ''4.1''
   \<and> the (parsedData (handleImageUpload snf_env initial_state (Some photo_small))) ''clr''
       = None"
proof -
  have k: "apiKey snf_env = Some ''test-key''" "''test-key'' \<noteq> []"
    by (simp_all add: snf_env_def)
  have m: "jsonMatch response_snf = Some response_snf"
    by (simp add: jsonMatch_def response_snf_def)
  have "processImage snf_env ''test-key'' (initial_state\<lparr>isProcessing := True, parsedData := None\<rparr>)
          photo_small
        = ((initial_state\<lparr>isProcessing := True, parsedData := None\<rparr>)
             \<lparr>compressedBlob := Some \<lparr>blob_width = 800, blob_height = 600,
                                        blob_type = ''image/jpeg'', blob_quality = 85 / 100\<rparr>,
              selectedImage := Some ''blob:preview'',
              parsedData :=
                Some ([''rawText'' \<mapsto> response_snf,
                       ''date'' \<mapsto> getImageCaptureDate snf_env photo_small]
                      ++ [''fat'' \<mapsto> ''4.1'', ''snfKg'' \<mapsto> ''3.2''])\<rparr>, None)"
    unfolding processImage_def compress_small
    by (simp add: snf_env_def m or_else_def)
  then have "parsedData (handleImageUpload snf_env initial_state (Some photo_small))
          = Some ([''rawText'' \<mapsto> response_snf,
                   ''date'' \<mapsto> getImageCaptureDate snf_env photo_small]
                  ++ [''fat'' \<mapsto> ''4.1'', ''snfKg'' \<mapsto> ''3.2''])"
    by (simp add: handleImageUpload_unfold[OF k])
  then show ?thesis by simp
qed

subsection \<open>C3: the ranges of the review form\<close>

lemma validateField_numberRule:
  assumes "s \<noteq> []" and "toNumber s = Fin v"
  shows "validateField (numberRule lo hi) (Some s)
           = (if round_double hi < v then Some MaxViolation
              else if v < round_double lo then Some MinViolation else None)"
  using assms
  by (simp add: validateField_def numberRule_def truthy_def exceeds_max_def below_min_def)

lemma validateForm_Cons:
  "validateForm ((n, r) # rules) data
     = (case validateField r (data n) of None \<Rightarrow> [] | Some k \<Rightarrow> [(n, k)])
       @ validateForm rules data"
  by (simp add: validateForm_def List.map_filter_simps split: option.split)

lemma validateField_absent:
  "\<not> rule_required r \<Longrightarrow> validateField r None = None"
  by (simp add: validateField_def truthy_def split: option.split)












lemma toNumber_quantities:
  "toNumber ''0.1'' = Fin (3602879701896397 / 36028797018963968)"
  "toNumber ''500'' = Fin 500"
  "toNumber ''0.099'' = Fin (3566850904877433 / 36028797018963968)"
  "toNumber ''500.01'' = Fin (2199067236017111 / 4398046511104)"
  "toNumber ''0.09999999999999999999'' = Fin (3602879701896397 / 36028797018963968)"
  unfolding toNumber_def scan_decimal_def exponent_of_def Let_def
  by (simp_all add: scan_defs to_double_values to_double_numeral)





subsection \<open>C1: saveReceipt stores what it is given\<close>

lemma has_role_storage [simp]:
  "has_role (be\<lparr>storage_objects := objs\<rparr>) roles = has_role be roles"
  by (simp add: has_role_def split: option.split)

lemma saveReceipt_success:
  assumes "has_role be [Admin, Member]" and "userId \<in> set (auth_users be)"
    and "next_uuid be \<notin> receipt_id ` set (receipts be)"
    and "map_of (storage_objects be) (userId @ ''/'' @ digits_of (date_now be) @ ''.jpg'') = None"
  shows "saveReceipt be userId rd (Some blob)
           = (Inr (next_uuid be),
              be\<lparr>storage_objects := storage_objects be
                      @ [(userId @ ''/'' @ digits_of (date_now be) @ ''.jpg'', blob)],
                 receipts := receipts be
                      @ [\<lparr>date = date rd, quantity = quantity rd, fat = fat rd, clr = clr rd,
                          fat_kg = fat_kg rd, snf_kg = snf_kg rd, base_rate = base_rate rd,
                          rate = rate rd, amount = amount rd,
                          image_url = getPublicUrl be
                            (userId @ ''/'' @ digits_of (date_now be) @ ''.jpg''),
                          receipt_id = next_uuid be, user_id = userId,
                          uploaded_by_name = None, created_at = sql_now be,
                          updated_at = sql_now be\<rparr>]\<rparr>)"
  using assms
  by (simp add: saveReceipt_def storage_upload_def insert_receipt_def getPublicUrl_def Let_def)

lemma saveReceipt_outcome_independent:
  "isl (fst (saveReceipt be userId rd imageBlob)) = isl (fst (saveReceipt be userId rd' imageBlob))"
  by (simp add: saveReceipt_def storage_upload_def insert_receipt_def Let_def
        split: option.split sum.split prod.split)

text \<open>
  C1, as the code has it. \<open>saveReceipt\<close> checks no field: when the signed-in user is an
  admin or a member, the owner is a known account, the generated id is fresh and no object
  is stored under the image's path, the record is inserted with every field as it was
  given (only \<open>image_url\<close> is replaced by the public URL of the uploaded image) and the id
  of the new row is returned; and for any backend, whether the call succeeds does not
  depend on the record's fields at all.
\<close>

theorem saveReceipt_persists_unvalidated:
  assumes "has_role be [Admin, Member]" and "userId \<in> set (auth_users be)"
    and "next_uuid be \<notin> receipt_id ` set (receipts be)"
    and "map_of (storage_objects be) (userId @ ''/'' @ digits_of (date_now be) @ ''.jpg'') = None"
  shows "(\<exists>be' row. saveReceipt be userId rd (Some blob) = (Inr (next_uuid be), be')
            \<and> receipts be' = receipts be @ [row]
            \<and> date row = date rd \<and> quantity row = quantity rd \<and> fat row = fat rd
            \<and> clr row = clr rd \<and> fat_kg row = fat_kg rd \<and> snf_kg row = snf_kg rd
            \<and> base_rate row = base_rate rd \<and> rate row = rate rd \<and> amount row = amount rd
            \<and> user_id row = userId \<and> receipt_id row = next_uuid be)
         \<and> isl (fst (saveReceipt be userId rd (Some blob)))
             = isl (fst (saveReceipt be userId rd' (Some blob)))"
proof -
  let ?path = "userId @ ''/'' @ digits_of (date_now be) @ ''.jpg''"
  let ?row = "\<lparr>date = date rd, quantity = quantity rd, fat = fat rd, clr = clr rd,
               fat_kg = fat_kg rd, snf_kg = snf_kg rd, base_rate = base_rate rd,
               rate = rate rd, amount = amount rd, image_url = getPublicUrl be ?path,
               receipt_id = next_uuid be, user_id = userId, uploaded_by_name = None,
               created_at = sql_now be, updated_at = sql_now be\<rparr>"
  let ?be' = "be\<lparr>storage_objects := storage_objects be @ [(?path, blob)],
                  receipts := receipts be @ [?row]\<rparr>"
  have s: "saveReceipt be userId rd (Some blob) = (Inr (next_uuid be), ?be')"
    by (rule saveReceipt_success[OF assms])
  have r: "receipts ?be' = receipts be @ [?row]" by simp
  have f: "date ?row = date rd" "quantity ?row = quantity rd" "fat ?row = fat rd"
    "clr ?row = clr rd" "fat_kg ?row = fat_kg rd" "snf_kg ?row = snf_kg rd"
    "base_rate ?row = base_rate rd" "rate ?row = rate rd" "amount ?row = amount rd"
    "user_id ?row = userId" "receipt_id ?row = next_uuid be"
    by simp_all
  have "\<exists>be' row. saveReceipt be userId rd (Some blob) = (Inr (next_uuid be), be')
            \<and> receipts be' = receipts be @ [row]
            \<and> date row = date rd \<and> quantity row = quantity rd \<and> fat row = fat rd
            \<and> clr row = clr rd \<and> fat_kg row = fat_kg rd \<and> snf_kg row = snf_kg rd
            \<and> base_rate row = base_rate rd \<and> rate row = rate rd \<and> amount row = amount rd
            \<and> user_id row = userId \<and> receipt_id row = next_uuid be"
    by (rule exI[of _ ?be'], rule exI[of _ ?row]) (intro conjI s r f)
  then show ?thesis using saveReceipt_outcome_independent by (rule conjI)
qed

lemma example_backend_ready:
  "has_role example_backend [Admin, Member]" "''user-1'' \<in> set (auth_users example_backend)"
  "next_uuid example_backend \<notin> receipt_id ` set (receipts example_backend)"
  "map_of (storage_objects example_backend)
     (''user-1'' @ ''/'' @ digits_of (date_now example_backend) @ ''.jpg'') = None"
  by (simp_all add: example_backend_def has_role_def)

lemma toNumber_examples:
  "toNumber ''4.1'' = Fin (2308094809027379 / 562949953421312)" "toNumber ''28'' = Fin 28"
  "toNumber ''70.50'' = Fin (141 / 2)" "toNumber ''36'' = Fin 36" "toNumber ''450'' = Fin 450"
  unfolding toNumber_def scan_decimal_def exponent_of_def Let_def
  by (simp_all add: scan_defs to_double_values to_double_numeral)

lemma low_quantity_fields:
  "low_quantity_record ''date'' = Some ''05/01/2024''"
  "low_quantity_record ''quantity'' = Some ''0.099''"
  "low_quantity_record ''fat'' = Some ''4.1''"
  "low_quantity_record ''clr'' = Some ''28''"
  "low_quantity_record ''fatKg'' = None"
  "low_quantity_record ''snfKg'' = None"
  "low_quantity_record ''baseRate'' = Some ''70.50''"
  "low_quantity_record ''rate'' = Some ''36''"
  "low_quantity_record ''amount'' = Some ''450''"
  by (simp_all add: low_quantity_record_def)

lemma date_field_ok:
  "validateField \<lparr>rule_required = False, rule_min = None, rule_max = None,
                   rule_pattern = Some date_pattern\<rparr> (Some ''05/01/2024'') = None"
  by (simp add: validateField_def truthy_def exceeds_max_def below_min_def date_pattern_def
        is_digit_def)

lemma validateForm_Nil: "validateForm [] data = []"
  by (simp add: validateForm_def List.map_filter_simps)

lemma low_quantity_violation:
  "validateForm editRules low_quantity_record = [(''quantity'', MinViolation)]"
proof -
  have n: "validateField (numberRule (1 / 10) 500) (Some ''0.099'') = Some MinViolation"
    "validateField (numberRule 2 11) (Some ''4.1'') = None"
    "validateField (numberRule 15 40) (Some ''28'') = None"
    "validateField (numberRule (1 / 10) 100) (Some ''70.50'') = None"
    "validateField (numberRule 1 200) (Some ''36'') = None"
    "validateField (numberRule 1 100000) (Some ''450'') = None"
    by (simp_all add: validateField_numberRule[OF _ toNumber_quantities(3)]
          validateField_numberRule[OF _ toNumber_examples(1)]
          validateField_numberRule[OF _ toNumber_examples(2)]
          validateField_numberRule[OF _ toNumber_examples(3)]
          validateField_numberRule[OF _ toNumber_examples(4)]
          validateField_numberRule[OF _ toNumber_examples(5)]
          round_double_values round_double_numeral round_double_1)
  have a: "validateField (numberRule (1 / 100) 50) None = None"
    by (simp add: validateField_absent numberRule_def)
  show ?thesis
    unfolding editRules_def validateForm_Cons validateForm_Nil low_quantity_fields
      date_field_ok n a
    by simp
qed

theorem saveReceipt_persists_unvalidated_witness:
  "has_role example_backend [Admin, Member]
   \<and> (\<exists>be' row. saveReceipt example_backend ''user-1'' (receiptData_of low_quantity_record)
                   (Some example_blob) = (Inr ''uuid-1'', be')
         \<and> receipts be' = [row] \<and> quantity row = ''0.099'' \<and> user_id row = ''user-1'')"
proof -
  have q: "quantity (receiptData_of low_quantity_record) = ''0.099''"
    by (simp add: receiptData_of_def low_quantity_record_def or_else_def)
  have e: "next_uuid example_backend = ''uuid-1''" "receipts example_backend = []"
    by (simp_all add: example_backend_def)
  from saveReceipt_persists_unvalidated [OF example_backend_ready,
      of "receiptData_of low_quantity_record" example_blob "receiptData_of low_quantity_record"]
  obtain be' row where
    "saveReceipt example_backend ''user-1'' (receiptData_of low_quantity_record)
       (Some example_blob) = (Inr (next_uuid example_backend), be')"
    "receipts be' = receipts example_backend @ [row]"
    "quantity row = quantity (receiptData_of low_quantity_record)"
    "user_id row = ''user-1''"
    by blast
  then have "\<exists>be' row. saveReceipt example_backend ''user-1''
                   (receiptData_of low_quantity_record) (Some example_blob) = (Inr ''uuid-1'', be')
         \<and> receipts be' = [row] \<and> quantity row = ''0.099'' \<and> user_id row = ''user-1''"
    unfolding q e by (intro exI conjI) simp_all
  with example_backend_ready(1) show ?thesis by (rule conjI)
qed

text \<open>
  C1 as stated fails: a record whose quantity, 0.099, is below the minimum of the review
  form is saved all the same. \<open>saveReceipt\<close> returns the id of the new row, and
  \<open>handleSaveReceipt\<close>, from the review screen after a capture, reports success and leaves
  the row with quantity 0.099 in the table.
\<close>

theorem invalid_record_is_saved:
  "validateForm editRules low_quantity_record = [(''quantity'', MinViolation)]
   \<and> fst (saveReceipt example_backend ''user-1'' (receiptData_of low_quantity_record)
            (Some example_blob)) = Inr ''uuid-1''
   \<and> map quantity (receipts (snd (saveReceipt example_backend ''user-1''
            (receiptData_of low_quantity_record) (Some example_blob)))) = [''0.099'']
   \<and> map quantity (receipts (snd (handleSaveReceipt example_backend (Some ''user-1'')
            (captured_state low_quantity_record)))) = [''0.099'']
   \<and> alerts (fst (handleSaveReceipt example_backend (Some ''user-1'')
            (captured_state low_quantity_record))) = [''Receipt saved successfully!'']"
proof -
  have q: "quantity (receiptData_of low_quantity_record) = ''0.099''"
    by (simp add: receiptData_of_def low_quantity_record_def or_else_def)
  have e: "next_uuid example_backend = ''uuid-1''" "receipts example_backend = []"
    by (simp_all add: example_backend_def)
  note s = saveReceipt_success[OF example_backend_ready,
      of "receiptData_of low_quantity_record" example_blob]
  have a: "fst (saveReceipt example_backend ''user-1'' (receiptData_of low_quantity_record)
            (Some example_blob)) = Inr ''uuid-1''"
    unfolding s e by simp
  have b: "map quantity (receipts (snd (saveReceipt example_backend ''user-1''
            (receiptData_of low_quantity_record) (Some example_blob)))) = [''0.099'']"
    unfolding s by (simp add: e q)
  have h: "handleSaveReceipt example_backend (Some ''user-1'') (captured_state low_quantity_record)
             = saveAndReport example_backend ''user-1'' (captured_state low_quantity_record)
                 low_quantity_record example_blob"
    by (simp add: handleSaveReceipt_def captured_state_def initial_state_def)
  have c: "map quantity (receipts (snd (handleSaveReceipt example_backend (Some ''user-1'')
            (captured_state low_quantity_record)))) = [''0.099'']"
    unfolding h saveAndReport_def s by (simp add: e q)
  have d: "alerts (fst (handleSaveReceipt example_backend (Some ''user-1'')
            (captured_state low_quantity_record))) = [''Receipt saved successfully!'']"
    unfolding h saveAndReport_def s
    by (simp add: handleReset_def captured_state_def initial_state_def)
  from low_quantity_violation a b c d show ?thesis by (intro conjI)
qed

subsection \<open>C10: unset fields are stored as empty strings\<close>

lemma saveAndReport_success:
  assumes "has_role be [Admin, Member]" and "uid \<in> set (auth_users be)"
    and "next_uuid be \<notin> receipt_id ` set (receipts be)"
    and "map_of (storage_objects be) (uid @ ''/'' @ digits_of (date_now be) @ ''.jpg'') = None"
  shows "receipts (snd (saveAndReport be uid st pd blob))
           = receipts be
             @ [\<lparr>date = or_else (pd ''date'') '''', quantity = or_else (pd ''quantity'') '''',
                 fat = or_else (pd ''fat'') '''', clr = or_else (pd ''clr'') '''',
                 fat_kg = pd ''fatKg'', snf_kg = pd ''snfKg'',
                 base_rate = or_else (pd ''baseRate'') '''', rate = or_else (pd ''rate'') '''',
                 amount = or_else (pd ''amount'') '''',
                 image_url = getPublicUrl be
                   (uid @ ''/'' @ digits_of (date_now be) @ ''.jpg''),
                 receipt_id = next_uuid be, user_id = uid, uploaded_by_name = None,
                 created_at = sql_now be, updated_at = sql_now be\<rparr>]"
    and "alerts (fst (saveAndReport be uid st pd blob))
           = alerts st @ [''Receipt saved successfully!'']"
  unfolding saveAndReport_def saveReceipt_success[OF assms]
  by (simp_all add: receiptData_of_def handleReset_def)

lemma handleSaveReceipt_blob:
  assumes "parsedData st = Some pd"
    and "entryMode st = Manual \<and> compressedBlob st = None \<or> (\<exists>b. compressedBlob st = Some b)"
  shows "\<exists>blob. handleSaveReceipt be (Some uid) st = saveAndReport be uid st pd blob"
  using assms by (auto simp: handleSaveReceipt_def toBlob_def)

lemma or_else_unset: "or_else None d = d"
  by (simp add: or_else_def)

text \<open>
  C10. At save time (a signed-in user, a session record, and an image: the captured one,
  or in manual mode the card drawn for the entry), when the backend accepts the insert,
  \<open>handleSaveReceipt\<close> adds exactly one row and reports success. In that row each of
  date, quantity, fat, clr, base_rate, rate and amount is the session record's value or, in
  its absence, the empty string: a field that is unset is stored as \<open>""\<close>, neither left
  out nor a reason to reject the record. (\<open>fat_kg\<close> and \<open>snf_kg\<close> are passed as they are,
  so unset they are stored as \<open>NULL\<close>.)
\<close>

theorem unset_fields_saved_empty:
  assumes "parsedData st = Some pd"
    and "entryMode st = Manual \<and> compressedBlob st = None \<or> (\<exists>b. compressedBlob st = Some b)"
    and "has_role be [Admin, Member]" and "uid \<in> set (auth_users be)"
    and "next_uuid be \<notin> receipt_id ` set (receipts be)"
    and "map_of (storage_objects be) (uid @ ''/'' @ digits_of (date_now be) @ ''.jpg'') = None"
  shows "\<exists>row. receipts (snd (handleSaveReceipt be (Some uid) st)) = receipts be @ [row]
           \<and> alerts (fst (handleSaveReceipt be (Some uid) st))
               = alerts st @ [''Receipt saved successfully!'']
           \<and> date row = or_else (pd ''date'') '''' \<and> quantity row = or_else (pd ''quantity'') ''''
           \<and> fat row = or_else (pd ''fat'') '''' \<and> clr row = or_else (pd ''clr'') ''''
           \<and> base_rate row = or_else (pd ''baseRate'') '''' \<and> rate row = or_else (pd ''rate'') ''''
           \<and> amount row = or_else (pd ''amount'') ''''
           \<and> (pd ''date'' = None \<longrightarrow> date row = '''')
           \<and> (pd ''quantity'' = None \<longrightarrow> quantity row = '''')
           \<and> (pd ''fat'' = None \<longrightarrow> fat row = '''')
           \<and> (pd ''clr'' = None \<longrightarrow> clr row = '''')
           \<and> (pd ''baseRate'' = None \<longrightarrow> base_rate row = '''')
           \<and> (pd ''rate'' = None \<longrightarrow> rate row = '''')
           \<and> (pd ''amount'' = None \<longrightarrow> amount row = '''')
           \<and> fat_kg row = pd ''fatKg'' \<and> snf_kg row = pd ''snfKg''"
proof -
  let ?row = "\<lparr>date = or_else (pd ''date'') '''', quantity = or_else (pd ''quantity'') '''',
                 fat = or_else (pd ''fat'') '''', clr = or_else (pd ''clr'') '''',
                 fat_kg = pd ''fatKg'', snf_kg = pd ''snfKg'',
                 base_rate = or_else (pd ''baseRate'') '''', rate = or_else (pd ''rate'') '''',
                 amount = or_else (pd ''amount'') '''',
                 image_url = getPublicUrl be
                   (uid @ ''/'' @ digits_of (date_now be) @ ''.jpg''),
                 receipt_id = next_uuid be, user_id = uid, uploaded_by_name = None,
                 created_at = sql_now be, updated_at = sql_now be\<rparr>"
  from handleSaveReceipt_blob[OF assms(1,2)]
  obtain blob where h: "handleSaveReceipt be (Some uid) st = saveAndReport be uid st pd blob" ..
  have r: "receipts (snd (handleSaveReceipt be (Some uid) st)) = receipts be @ [?row]"
    unfolding h by (rule saveAndReport_success(1)[OF assms(3-6)])
  have a: "alerts (fst (handleSaveReceipt be (Some uid) st))
             = alerts st @ [''Receipt saved successfully!'']"
    unfolding h by (rule saveAndReport_success(2)[OF assms(3-6)])
  have f: "date ?row = or_else (pd ''date'') ''''" "quantity ?row = or_else (pd ''quantity'') ''''"
    "fat ?row = or_else (pd ''fat'') ''''" "clr ?row = or_else (pd ''clr'') ''''"
    "base_rate ?row = or_else (pd ''baseRate'') ''''" "rate ?row = or_else (pd ''rate'') ''''"
    "amount ?row = or_else (pd ''amount'') ''''"
    by simp_all
  have g: "pd ''date'' = None \<longrightarrow> date ?row = ''''"
    "pd ''quantity'' = None \<longrightarrow> quantity ?row = ''''"
    "pd ''fat'' = None \<longrightarrow> fat ?row = ''''"
    "pd ''clr'' = None \<longrightarrow> clr ?row = ''''"
    "pd ''baseRate'' = None \<longrightarrow> base_rate ?row = ''''"
    "pd ''rate'' = None \<longrightarrow> rate ?row = ''''"
    "pd ''amount'' = None \<longrightarrow> amount ?row = ''''"
    by (simp_all add: or_else_unset)
  have k: "fat_kg ?row = pd ''fatKg''" "snf_kg ?row = pd ''snfKg''" by simp_all
  show ?thesis
    by (rule exI[of _ ?row]) (intro conjI r a f g k)
qed

lemma sparse_record_fields:
  "sparse_record ''date'' = None" "sparse_record ''quantity'' = Some ''12.5''"
  "sparse_record ''fat'' = None" "sparse_record ''clr'' = None"
  "sparse_record ''baseRate'' = None" "sparse_record ''rate'' = None"
  "sparse_record ''amount'' = Some ''450''"
  by (simp_all add: sparse_record_def)

theorem unset_fields_saved_empty_witness:
  "parsedData (captured_state sparse_record) = Some sparse_record
   \<and> sparse_record ''date'' = None \<and> sparse_record ''fat'' = None
   \<and> (\<exists>row. receipts (snd (handleSaveReceipt example_backend (Some ''user-1'')
                  (captured_state sparse_record))) = [row]
         \<and> date row = '''' \<and> quantity row = ''12.5'' \<and> fat row = '''' \<and> clr row = ''''
         \<and> base_rate row = '''' \<and> rate row = '''' \<and> amount row = ''450'')
   \<and> (\<exists>row. receipts (snd (handleSaveReceipt example_backend (Some ''user-1'')
                  ((captured_state sparse_record)
                     \<lparr>entryMode := Manual, compressedBlob := None\<rparr>))) = [row]
         \<and> date row = '''' \<and> quantity row = ''12.5'' \<and> fat row = '''')"
proof -
  have p: "parsedData (captured_state sparse_record) = Some sparse_record"
    by (simp add: captured_state_def)
  have b: "entryMode (captured_state sparse_record) = Manual
             \<and> compressedBlob (captured_state sparse_record) = None
           \<or> (\<exists>b. compressedBlob (captured_state sparse_record) = Some b)"
    by (simp add: captured_state_def)
  let ?m = "(captured_state sparse_record)\<lparr>entryMode := Manual, compressedBlob := None\<rparr>"
  have pm: "parsedData ?m = Some sparse_record"
    by (simp add: captured_state_def)
  have bm: "entryMode ?m = Manual \<and> compressedBlob ?m = None
            \<or> (\<exists>b. compressedBlob ?m = Some b)"
    by simp
  have e: "receipts example_backend = []"
    by (simp add: example_backend_def)
  from unset_fields_saved_empty [OF p b example_backend_ready]
  obtain row where row:
    "receipts (snd (handleSaveReceipt example_backend (Some ''user-1'')
        (captured_state sparse_record))) = receipts example_backend @ [row]"
    "date row = or_else (sparse_record ''date'') ''''"
    "quantity row = or_else (sparse_record ''quantity'') ''''"
    "fat row = or_else (sparse_record ''fat'') ''''"
    "clr row = or_else (sparse_record ''clr'') ''''"
    "base_rate row = or_else (sparse_record ''baseRate'') ''''"
    "rate row = or_else (sparse_record ''rate'') ''''"
    "amount row = or_else (sparse_record ''amount'') ''''"
    by blast
  from unset_fields_saved_empty [OF pm bm example_backend_ready]
  obtain row' where row':
    "receipts (snd (handleSaveReceipt example_backend (Some ''user-1'') ?m))
       = receipts example_backend @ [row']"
    "date row' = or_else (sparse_record ''date'') ''''"
    "quantity row' = or_else (sparse_record ''quantity'') ''''"
    "fat row' = or_else (sparse_record ''fat'') ''''"
    by blast
  have 1: "\<exists>row. receipts (snd (handleSaveReceipt example_backend (Some ''user-1'')
                  (captured_state sparse_record))) = [row]
         \<and> date row = '''' \<and> quantity row = ''12.5'' \<and> fat row = '''' \<and> clr row = ''''
         \<and> base_rate row = '''' \<and> rate row = '''' \<and> amount row = ''450''"
    using row unfolding e sparse_record_fields
    by (intro exI[of _ row] conjI) (simp_all add: or_else_def)
  have 2: "\<exists>row. receipts (snd (handleSaveReceipt example_backend (Some ''user-1'') ?m)) = [row]
         \<and> date row = '''' \<and> quantity row = ''12.5'' \<and> fat row = ''''"
    using row' unfolding e sparse_record_fields
    by (intro exI[of _ row'] conjI) (simp_all add: or_else_def)
  from p sparse_record_fields(1,3) 1 2 show ?thesis by (intro conjI)
qed

subsection \<open>C2: getUserReceipts lists the caller's receipts only\<close>

lemma getUserReceipts_owner_only:
  "set (getUserReceipts be userId) = {r \<in> set (visible_receipts be). user_id r = userId}"
  by (auto simp: getUserReceipts_def)

lemma visible_receipts_signed_in:
  "auth_uid be = Some uid \<Longrightarrow> visible_receipts be = receipts be"
  by (simp add: visible_receipts_def)

text \<open>
  C2, at a failing input. The table holds a receipt of the member \<open>user-1\<close> and one of the
  admin \<open>user-2\<close>; the member is signed in, and the select policy lets the member see both
  rows. \<open>getUserReceipts\<close>, called as the records view calls it (with the caller's id),
  returns the member's receipt only: the admin's receipt is not listed.
\<close>

theorem getUserReceipts_omits_other_owners:
  "receipts two_owner_backend = [receipt_jan5, receipt_jan20]
   \<and> auth_uid two_owner_backend = Some ''user-1''
   \<and> visible_receipts two_owner_backend = [receipt_jan5, receipt_jan20]
   \<and> user_id receipt_jan20 = ''user-2''
   \<and> getUserReceipts two_owner_backend ''user-1'' = [receipt_jan5]
   \<and> receipt_jan20 \<notin> set (getUserReceipts two_owner_backend ''user-1'')"
proof -
  have r: "receipts two_owner_backend = [receipt_jan5, receipt_jan20]"
    and a: "auth_uid two_owner_backend = Some ''user-1''"
    by (simp_all add: two_owner_backend_def example_backend_def)
  have v: "visible_receipts two_owner_backend = [receipt_jan5, receipt_jan20]"
    using visible_receipts_signed_in[OF a] r by simp
  have u: "user_id receipt_jan5 = ''user-1''" "user_id receipt_jan20 = ''user-2''"
    by (simp_all add: receipt_jan5_def receipt_jan20_def)
  have g: "getUserReceipts two_owner_backend ''user-1'' = [receipt_jan5]"
    unfolding getUserReceipts_def v by (simp add: u)
  have n: "receipt_jan20 \<notin> set (getUserReceipts two_owner_backend ''user-1'')"
    using getUserReceipts_owner_only[of two_owner_backend "''user-1''"] u(2) by simp
  from r a v u(2) g n show ?thesis by (intro conjI)
qed

subsection \<open>C8: the filter is applied before the receipts are grouped\<close>

lemma starts_with_iff: "starts_with p s \<longleftrightarrow> (\<exists>b. s = p @ b)"
  by (induction p arbitrary: s) (auto split: list.splits)

lemma includes_str_iff: "includes_str s pat \<longleftrightarrow> (\<exists>a b. s = a @ pat @ b)"
proof (induction s)
  case Nil
  then show ?case by auto
next
  case (Cons c cs)
  show ?case
  proof
    assume "includes_str (c # cs) pat"
    then consider "starts_with pat (c # cs)" | "includes_str cs pat" by auto
    then show "\<exists>a b. c # cs = a @ pat @ b"
    proof cases
      case 1
      then obtain b where "c # cs = pat @ b" unfolding starts_with_iff ..
      then have "c # cs = [] @ pat @ b" by simp
      then show ?thesis by blast
    next
      case 2
      with Cons.IH obtain a b where "cs = a @ pat @ b" by blast
      then have "c # cs = (c # a) @ pat @ b" by simp
      then show ?thesis by blast
    qed
  next
    assume "\<exists>a b. c # cs = a @ pat @ b"
    then obtain a b where ab: "c # cs = a @ pat @ b" by blast
    show "includes_str (c # cs) pat"
    proof (cases a)
      case Nil
      with ab have "starts_with pat (c # cs)" unfolding starts_with_iff by auto
      then show ?thesis by simp
    next
      case (Cons x a')
      with ab have "cs = a' @ pat @ b" by simp
      with Cons.IH have "includes_str cs pat" by blast
      then show ?thesis by simp
    qed
  qed
qed

lemma matchesFilter_iff:
  "matchesFilter globalFilter r
     \<longleftrightarrow> (\<exists>v \<in> set (receipt_values r). \<exists>a b. toLowerCase v = a @ toLowerCase globalFilter @ b)"
  unfolding matchesFilter_def list_ex_iff includes_str_iff ..

lemma first_occurrences_snoc:
  "first_occurrences (xs @ [x])
     = (if x \<in> set xs then first_occurrences xs else first_occurrences xs @ [x])"
  by (simp add: first_occurrences_def)

lemma set_first_occurrences: "set (first_occurrences xs) = set xs"
  by (simp add: first_occurrences_def)

lemma map_filter_snoc:
  "List.map_filter f (xs @ [x])
     = List.map_filter f xs @ (case f x of None \<Rightarrow> [] | Some y \<Rightarrow> [y])"
  by (simp add: List.map_filter_def split: option.split)

lemma set_map_filter: "set (List.map_filter f xs) = {y. \<exists>x \<in> set xs. f x = Some y}"
proof (induction xs)
  case Nil
  show ?case by (simp add: List.map_filter_simps)
next
  case (Cons x xs)
  then show ?case by (auto simp: List.map_filter_simps split: option.splits)
qed

lemma map_of_grouped_by:
  "map_of (grouped_by key xs) k = None \<longleftrightarrow> (\<forall>x \<in> set xs. key x \<noteq> Some k)"
proof -
  have "map_of (grouped_by key xs) k = None \<longleftrightarrow> k \<notin> set (List.map_filter key xs)"
    by (simp add: grouped_by_def map_of_eq_None_iff image_image set_first_occurrences)
  then show ?thesis by (auto simp: set_map_filter)
qed

lemma grouped_by_snoc_None:
  assumes "key x = None"
  shows "grouped_by key (xs @ [x]) = grouped_by key xs"
  using assms by (simp add: grouped_by_def map_filter_snoc)

lemma grouped_by_snoc_new:
  assumes "key x = Some k" and "\<forall>y \<in> set xs. key y \<noteq> Some k"
  shows "grouped_by key (xs @ [x]) = grouped_by key xs @ [(k, [x])]"
proof -
  from assms(2) have n: "k \<notin> set (List.map_filter key xs)"
    by (auto simp: set_map_filter)
  have e: "filter (\<lambda>y. key y = Some k) xs = []"
    using assms(2) by (auto simp: filter_empty_conv)
  have "map (\<lambda>k'. (k', filter (\<lambda>y. key y = Some k') (xs @ [x])))
            (first_occurrences (List.map_filter key xs))
          = map (\<lambda>k'. (k', filter (\<lambda>y. key y = Some k') xs))
              (first_occurrences (List.map_filter key xs))"
    using n assms(1) by (intro map_cong refl) (auto simp: set_first_occurrences)
  then show ?thesis
    using assms(1) n e
    by (simp add: grouped_by_def map_filter_snoc first_occurrences_snoc)
qed

lemma grouped_by_snoc_old:
  assumes "key x = Some k" and "\<exists>y \<in> set xs. key y = Some k"
  shows "grouped_by key (xs @ [x])
           = map (\<lambda>(k', g). if k' = k then (k', g @ [x]) else (k', g)) (grouped_by key xs)"
proof -
  from assms(2) have n: "k \<in> set (List.map_filter key xs)"
    by (auto simp: set_map_filter)
  then show ?thesis
    using assms(1)
    by (auto simp: grouped_by_def map_filter_snoc first_occurrences_snoc)
qed

lemma group_push_grouped_by:
  assumes "key x = Some k"
  shows "group_push (grouped_by key xs) k x = grouped_by key (xs @ [x])"
proof (cases "\<forall>y \<in> set xs. key y \<noteq> Some k")
  case True
  then have "map_of (grouped_by key xs) k = None" by (simp add: map_of_grouped_by)
  then show ?thesis
    by (simp add: group_push_def grouped_by_snoc_new[OF assms True])
next
  case False
  then have ex: "\<exists>y \<in> set xs. key y = Some k" by blast
  from False have "map_of (grouped_by key xs) k \<noteq> None" by (simp add: map_of_grouped_by)
  then obtain g where "map_of (grouped_by key xs) k = Some g" by blast
  then show ?thesis
    by (simp add: group_push_def grouped_by_snoc_old[OF assms ex])
qed

lemma group_fold:
  "foldl (\<lambda>groups receipt.
            case monthYear_of (date receipt) of
              None \<Rightarrow> groups
            | Some monthYear \<Rightarrow> group_push groups monthYear receipt) [] rs
     = grouped_by (\<lambda>r. monthYear_of (date r)) rs"
proof (induction rs rule: rev_induct)
  case Nil
  show ?case by (simp add: grouped_by_def first_occurrences_def List.map_filter_simps)
next
  case (snoc r rs)
  show ?case
  proof (cases "monthYear_of (date r)")
    case None
    with snoc show ?thesis by (simp add: grouped_by_snoc_None)
  next
    case (Some k)
    with snoc show ?thesis
      by (simp add: group_push_grouped_by[of "\<lambda>r. monthYear_of (date r)" r k rs])
  qed
qed

lemma monthTotal_whole:
  assumes "\<forall>r \<in> set g. parseFloat (amount r) = Fin (real (val r))"
    and "s + sum_list (map val g) < 2 ^ 53"
  shows "foldl (\<lambda>sum r. jsnum_add sum (parseFloat (amount r))) (Fin (real s)) g
           = Fin (real (s + sum_list (map val g)))"
  using assms
proof (induction g arbitrary: s)
  case Nil
  then show ?case by simp
next
  case (Cons r g)
  from Cons.prems have p: "parseFloat (amount r) = Fin (real (val r))"
    and q: "\<forall>x \<in> set g. parseFloat (amount x) = Fin (real (val x))"
    and b: "s + val r < 2 ^ 53" "(s + val r) + sum_list (map val g) < 2 ^ 53"
    by (simp_all add: add.assoc)
  have step: "jsnum_add (Fin (real s)) (parseFloat (amount r)) = Fin (real (s + val r))"
    unfolding p by (rule jsnum_add_nat[OF b(1)])
  show ?case
    unfolding foldl_Cons step Cons.IH[OF q b(2)] by (simp add: add.assoc)
qed

lemma toFixed_2_whole:
  assumes "n < 10 ^ 21"
  shows "toFixed 2 (Fin (real n)) = digits_of n @ ''.00''"
proof -
  have "real n < real (10 ^ 21)" using assms by (simp only: of_nat_less_iff)
  then have b: "\<bar>real n\<bar> < 10 ^ 21" by simp
  have "\<lfloor>real n * 100 + 1 / 2\<rfloor> = int (n * 100)" by linarith
  then have f: "nat \<lfloor>\<bar>real n\<bar> * 100 + 1 / 2\<rfloor> = n * 100" by simp
  show ?thesis
    unfolding toFixed_2_shape[OF b] f by (simp add: two_digits_def)
qed

lemma monthYear_examples:
  "monthYear_of ''05/01/2024'' = Some ''January 2024''"
  "monthYear_of ''20/01/2024'' = Some ''January 2024''"
  "monthYear_of ''01/02/2024'' = Some ''February 2024''"
  unfolding monthYear_of_def parse_ddMMyyyy_def scan_digits_def expect_char_def Let_def
  by (simp_all add: is_digit_def is_space_def nat_of_digits_def digit_val_def
        days_in_month_def is_leap_year_def month_names_def padStart_def digits_of.simps)

lemma matches_jan5: "matchesFilter ''05/01'' receipt_jan5"
  by (simp add: matchesFilter_def receipt_values_def receipt_jan5_def String_of_column_def
        toLowerCase_def lower_char_def)

lemma matches_jan20: "\<not> matchesFilter ''05/01'' receipt_jan20"
  by (simp add: matchesFilter_def receipt_values_def receipt_jan20_def String_of_column_def
        toLowerCase_def lower_char_def)

lemma matches_feb1: "\<not> matchesFilter ''05/01'' receipt_feb1"
  by (simp add: matchesFilter_def receipt_values_def receipt_feb1_def String_of_column_def
        toLowerCase_def lower_char_def)

lemma parseFloat_amounts:
  "parseFloat ''100'' = Fin 100" "parseFloat ''200'' = Fin 200" "parseFloat ''300'' = Fin 300"
  unfolding parseFloat_def scan_decimal_def exponent_of_def Let_def
  by (simp_all add: scan_defs to_double_numeral)

lemma toFixed_totals:
  "toFixed 2 (Fin 100) = ''100.00''" "toFixed 2 (Fin 300) = ''300.00''"
  unfolding toFixed_def Let_def by (simp_all add: padStart_def digits_of.simps)

lemma receipt_dates:
  "date receipt_jan5 = ''05/01/2024''" "date receipt_jan20 = ''20/01/2024''"
  "date receipt_feb1 = ''01/02/2024''"
  "amount receipt_jan5 = ''100''" "amount receipt_jan20 = ''200''"
  "amount receipt_feb1 = ''300''"
  by (simp_all add: receipt_jan5_def receipt_jan20_def receipt_feb1_def)

lemma month_totals:
  "monthTotal [receipt_jan5] = ''100.00''"
  "monthTotal [receipt_jan5, receipt_jan20] = ''300.00''"
  "monthTotal [receipt_feb1] = ''300.00''"
  by (simp_all add: monthTotal_def receipt_dates parseFloat_amounts to_double_numeral
        toFixed_totals)

lemma grouped_filtered:
  "grouped_by (\<lambda>r. monthYear_of (date r)) [receipt_jan5] = [(''January 2024'', [receipt_jan5])]"
  by (simp add: grouped_by_def List.map_filter_simps first_occurrences_def receipt_dates
        monthYear_examples)

lemma grouped_all:
  "grouped_by (\<lambda>r. monthYear_of (date r)) [receipt_jan5, receipt_jan20, receipt_feb1]
     = [(''January 2024'', [receipt_jan5, receipt_jan20]), (''February 2024'', [receipt_feb1])]"
  by (simp add: grouped_by_def List.map_filter_simps first_occurrences_def receipt_dates
        monthYear_examples)

text \<open>
  C8. \<open>groupReceiptsByMonth\<close> groups the receipts that pass the filter, not all of them:
  its result is the grouping by month label (groups in the order in which their months
  first occur, members in their original order, receipts whose date does not parse left
  out) of the filtered list, where a non-empty filter keeps the receipts one of whose
  values contains the filter, both in lower case. The view's total of a group is computed
  from the members of that group alone: it is the sum of their amounts, added from left
  to right in double arithmetic and printed by \<open>toFixed(2)\<close>; for amounts that are whole
  numbers with a sum below \<open>2^53\<close> no addition rounds, and the total is the digits of the
  exact sum followed by \<open>.00\<close>. So every member of a group passed the filter, and a receipt
  that the filter removed adds nothing to any total.
\<close>

theorem filter_before_grouping:
  "groupReceiptsByMonth globalFilter rs
     = grouped_by (\<lambda>r. monthYear_of (date r))
         (if globalFilter \<noteq> [] then filter (matchesFilter globalFilter) rs else rs)
   \<and> monthGroups globalFilter rs
     = map (\<lambda>(monthYear, g). (monthYear, g, monthTotal g))
         (grouped_by (\<lambda>r. monthYear_of (date r))
            (if globalFilter \<noteq> [] then filter (matchesFilter globalFilter) rs else rs))
   \<and> (matchesFilter globalFilter r
        \<longleftrightarrow> (\<exists>v \<in> set (receipt_values r).
               \<exists>a b. toLowerCase v = a @ toLowerCase globalFilter @ b))
   \<and> (\<forall>(monthYear, g, total) \<in> set (monthGroups globalFilter rs).
         total = monthTotal g
         \<and> g = filter (\<lambda>r. monthYear_of (date r) = Some monthYear)
                 (if globalFilter \<noteq> [] then filter (matchesFilter globalFilter) rs else rs)
         \<and> (\<forall>x \<in> set g. x \<in> set rs \<and> (globalFilter \<noteq> [] \<longrightarrow> matchesFilter globalFilter x)))
   \<and> ((\<forall>x \<in> set g. parseFloat (amount x) = Fin (real (val x)))
         \<and> sum_list (map val g) < 2 ^ 53
        \<longrightarrow> monthTotal g = digits_of (sum_list (map val g)) @ ''.00'')"
proof -
  let ?fs = "if globalFilter \<noteq> [] then filter (matchesFilter globalFilter) rs else rs"
  let ?key = "\<lambda>r. monthYear_of (date r)"
  have a: "groupReceiptsByMonth globalFilter rs = grouped_by ?key ?fs"
    unfolding groupReceiptsByMonth_def Let_def group_fold ..
  have b: "monthGroups globalFilter rs
             = map (\<lambda>(monthYear, g). (monthYear, g, monthTotal g)) (grouped_by ?key ?fs)"
    unfolding monthGroups_def a ..
  have d: "\<forall>(monthYear, g, total) \<in> set (monthGroups globalFilter rs).
         total = monthTotal g
         \<and> g = filter (\<lambda>r. monthYear_of (date r) = Some monthYear) ?fs
         \<and> (\<forall>x \<in> set g. x \<in> set rs \<and> (globalFilter \<noteq> [] \<longrightarrow> matchesFilter globalFilter x))"
    unfolding b grouped_by_def by (auto split: if_splits)
  have e: "(\<forall>x \<in> set g. parseFloat (amount x) = Fin (real (val x)))
         \<and> sum_list (map val g) < 2 ^ 53
        \<longrightarrow> monthTotal g = digits_of (sum_list (map val g)) @ ''.00''"
  proof (intro impI, elim conjE)
    assume p: "\<forall>x \<in> set g. parseFloat (amount x) = Fin (real (val x))"
      and s: "sum_list (map val g) < 2 ^ 53"
    have "(2::nat) ^ 53 \<le> 10 ^ 21" by simp
    with s have l: "sum_list (map val g) < 10 ^ 21" by (rule less_le_trans)
    from s have s0: "0 + sum_list (map val g) < 2 ^ 53" by simp
    have "foldl (\<lambda>sum r. jsnum_add sum (parseFloat (amount r))) (Fin (real 0)) g
            = Fin (real (0 + sum_list (map val g)))"
      by (rule monthTotal_whole[OF p s0])
    then have "monthTotal g = toFixed 2 (Fin (real (sum_list (map val g))))"
      by (simp add: monthTotal_def)
    then show "monthTotal g = digits_of (sum_list (map val g)) @ ''.00''"
      unfolding toFixed_2_whole[OF l] .
  qed
  from a b matchesFilter_iff d e show ?thesis by (intro conjI)
qed

theorem filter_before_grouping_witness:
  "matchesFilter ''05/01'' receipt_jan5 \<and> \<not> matchesFilter ''05/01'' receipt_jan20
   \<and> \<not> matchesFilter ''05/01'' receipt_feb1
   \<and> monthGroups ''05/01'' [receipt_jan5, receipt_jan20, receipt_feb1]
       = [(''January 2024'', [receipt_jan5], ''100.00'')]
   \<and> monthGroups [] [receipt_jan5, receipt_jan20, receipt_feb1]
       = [(''January 2024'', [receipt_jan5, receipt_jan20], ''300.00''),
          (''February 2024'', [receipt_feb1], ''300.00'')]
   \<and> monthTotal [receipt_jan5, receipt_jan20] = digits_of (100 + 200) @ ''.00''"
proof -
  have f: "filter (matchesFilter ''05/01'') [receipt_jan5, receipt_jan20, receipt_feb1]
             = [receipt_jan5]"
    by (simp add: matches_jan5 matches_jan20 matches_feb1)
  have ne: "(''05/01'' \<noteq> []) = True" "(([]::string) \<noteq> []) = False" by simp_all
  have 1: "monthGroups ''05/01'' [receipt_jan5, receipt_jan20, receipt_feb1]
       = [(''January 2024'', [receipt_jan5], ''100.00'')]"
    unfolding filter_before_grouping
      [of "''05/01''" "[receipt_jan5, receipt_jan20, receipt_feb1]", THEN conjunct2, THEN conjunct1]
      ne if_True f grouped_filtered
    by (simp add: month_totals)
  have 2: "monthGroups [] [receipt_jan5, receipt_jan20, receipt_feb1]
       = [(''January 2024'', [receipt_jan5, receipt_jan20], ''300.00''),
          (''February 2024'', [receipt_feb1], ''300.00'')]"
    unfolding filter_before_grouping
      [of "[]" "[receipt_jan5, receipt_jan20, receipt_feb1]", THEN conjunct2, THEN conjunct1]
      ne if_False grouped_all
    by (simp add: month_totals)
  have 3: "monthTotal [receipt_jan5, receipt_jan20] = digits_of (100 + 200) @ ''.00''"
    using filter_before_grouping
      [where g = "[receipt_jan5, receipt_jan20]" and val = "\<lambda>r. nat_of_digits (amount r)",
        THEN conjunct2, THEN conjunct2, THEN conjunct2, THEN conjunct2]
    by (simp add: receipt_dates parseFloat_amounts nat_of_digits_def digit_val_def)
  from matches_jan5 matches_jan20 matches_feb1 1 2 3 show ?thesis by (intro conjI)
qed

end
